theory Spec2Isabelle
  imports Main
begin

section \<open>Loop Store (db.ts)\<close>

text \<open>
  The rows of the \<^verbatim>\<open>loops\<close> table, as the interface \<^verbatim>\<open>Loop\<close> of db.ts declares them.
  The column \<^verbatim>\<open>id\<close> is called \<open>loop_id\<close> here. Numbers that the engine reads from
  decimal digits (\<^verbatim>\<open>current_pr\<close>, \<^verbatim>\<open>current_issue\<close>) are natural numbers, the two
  iteration counters are integers; timestamps are ISO strings.
\<close>

datatype LoopStatus = Pending | Running | Paused | Waiting_approval | Complete | Error | Stopped

datatype LoopMode = Auto | Approval

record Loop =
  loop_id :: string
  repo_owner :: string
  repo_name :: string
  channel_id :: string
  thread_ts :: "string option"
  status :: LoopStatus
  mode :: LoopMode
  current_issue :: "nat option"
  current_pr :: "nat option"
  iteration_current :: int
  iteration_max :: int
  started_at :: "string option"
  started_by :: string
  completed_at :: "string option"
  error :: "string option"
  pid :: "nat option"

datatype LogLevel = Info | Warn | Err

datatype LogEntry = LogEntry string LogLevel string

text \<open>
  What the driver makes observable outside the store: the hooks of \<^verbatim>\<open>LoopCallbacks\<close> it
  calls (each with the row \<^verbatim>\<open>db.getLoop(loopId)\<close> returns at that moment), the processes
  it spawns, the signals it sends and the merges it requests.
\<close>

datatype Event =
    CbStart "Loop option"
  | CbIteration "Loop option" int string
  | CbTaskComplete "Loop option" nat nat
  | CbWaitingApproval "Loop option" nat nat
  | CbComplete "Loop option"
  | CbError "Loop option" string
  | ProcSpawned string string string
  | ProcKilled nat
  | MergeCalled string string nat

text \<open>
  The mutable state of the program: the \<^verbatim>\<open>loops\<close> and \<^verbatim>\<open>loop_logs\<close> tables, the module
  variable \<^verbatim>\<open>activeProcesses\<close> of loop.ts (a process handle is its number), and the trace
  of events.
\<close>

record World =
  loops :: "string \<rightharpoonup> Loop"
  loop_logs :: "LogEntry list"
  activeProcesses :: "string \<rightharpoonup> nat"
  events :: "Event list"

definition getLoop :: "World \<Rightarrow> string \<Rightarrow> Loop option" where
  "getLoop w lid = loops w lid"

text \<open>\<^verbatim>\<open>UPDATE loops SET ... WHERE id = ?\<close>: a missing row is left missing.\<close>

definition updateLoop :: "string \<Rightarrow> (Loop \<Rightarrow> Loop) \<Rightarrow> World \<Rightarrow> World" where
  "updateLoop lid upd w =
     (case loops w lid of
        None \<Rightarrow> w
      | Some l \<Rightarrow> w\<lparr>loops := (loops w)(lid \<mapsto> upd l)\<rparr>)"

definition completeLoop :: "string \<Rightarrow> string \<Rightarrow> World \<Rightarrow> World" where
  "completeLoop lid ts w =
     updateLoop lid (\<lambda>l. l\<lparr>status := Complete, completed_at := Some ts\<rparr>) w"

definition failLoop :: "string \<Rightarrow> string \<Rightarrow> string \<Rightarrow> World \<Rightarrow> World" where
  "failLoop lid msg ts w =
     updateLoop lid (\<lambda>l. l\<lparr>status := Error, error := Some msg, completed_at := Some ts\<rparr>) w"

definition stopLoop :: "string \<Rightarrow> string \<Rightarrow> World \<Rightarrow> World" where
  "stopLoop lid ts w =
     updateLoop lid (\<lambda>l. l\<lparr>status := Stopped, completed_at := Some ts\<rparr>) w"

definition logLoop :: "string \<Rightarrow> string \<Rightarrow> LogLevel \<Rightarrow> World \<Rightarrow> World" where
  "logLoop lid msg lvl w = w\<lparr>loop_logs := loop_logs w @ [LogEntry lid lvl msg]\<rparr>"

section \<open>Strings and numbers of the host language\<close>

fun startsWith :: "string \<Rightarrow> string \<Rightarrow> bool" where
  "startsWith s [] = True"
| "startsWith [] (p # ps) = False"
| "startsWith (c # cs) (p # ps) = (c = p \<and> startsWith cs ps)"

text \<open>\<^verbatim>\<open>s.includes(t)\<close>: \<open>t\<close> occurs in \<open>s\<close> as a contiguous substring.\<close>

fun str_includes :: "string \<Rightarrow> string \<Rightarrow> bool" where
  "str_includes [] t = (t = [])"
| "str_includes (c # cs) t = (startsWith (c # cs) t \<or> str_includes cs t)"

text \<open>\<^verbatim>\<open>s.slice(-n)\<close>: the last \<open>n\<close> characters, the whole string when it is shorter.\<close>

definition slice_last :: "nat \<Rightarrow> string \<Rightarrow> string" where
  "slice_last n s = drop (length s - n) s"

definition is_digit :: "char \<Rightarrow> bool" where
  "is_digit c = (c \<in> set ''0123456789'')"

text \<open>The value of a decimal digit is its position among the digits.\<close>

definition digit_val :: "char \<Rightarrow> nat" where
  "digit_val c = length (takeWhile (\<lambda>d. d \<noteq> c) ''0123456789'')"

text \<open>The number that a run of decimal digits spells.\<close>

definition decimal :: "string \<Rightarrow> nat" where
  "decimal ds = foldl (\<lambda>n c. 10 * n + digit_val c) 0 ds"

text \<open>
  \<^verbatim>\<open>Number.MAX_SAFE_INTEGER\<close>, \<open>2^53 - 1\<close>: the host's numbers are IEEE doubles, and up to
  this bound every natural number is one of them and prints as its decimal digits.
\<close>

definition MAX_SAFE_INTEGER :: nat where
  "MAX_SAFE_INTEGER = 9007199254740991"

fun show_nat :: "nat \<Rightarrow> string" where
  "show_nat n =
     (if n < 10 then [''0123456789'' ! n]
      else show_nat (n div 10) @ [''0123456789'' ! (n mod 10)])"

definition show_int :: "int \<Rightarrow> string" where
  "show_int k = (if k < 0 then CHR ''-'' # show_nat (nat (- k)) else show_nat (nat k))"

definition strip_prefix :: "string \<Rightarrow> string \<Rightarrow> string option" where
  "strip_prefix p s = (if startsWith s p then Some (drop (length p) s) else None)"

text \<open>
  The pattern \<^verbatim>\<open>https:\/\/github\.com\/[^\/]+\/[^\/]+\/pull\/(\d+)\<close> anchored at the head
  of the string; the result is the text of group 1. A run \<^verbatim>\<open>[^\/]+\<close> followed by a slash
  can only end at the next slash, and \<^verbatim>\<open>\d+\<close> is greedy.
\<close>

definition pr_at :: "string \<Rightarrow> string option" where
  "pr_at s =
     (case strip_prefix ''https://github.com/'' s of
        None \<Rightarrow> None
      | Some r1 \<Rightarrow>
          if takeWhile (\<lambda>c. c \<noteq> CHR ''/'') r1 = [] then None
          else (case strip_prefix ''/'' (dropWhile (\<lambda>c. c \<noteq> CHR ''/'') r1) of
             None \<Rightarrow> None
           | Some r2 \<Rightarrow>
               if takeWhile (\<lambda>c. c \<noteq> CHR ''/'') r2 = [] then None
               else (case strip_prefix ''/pull/'' (dropWhile (\<lambda>c. c \<noteq> CHR ''/'') r2) of
                  None \<Rightarrow> None
                | Some r3 \<Rightarrow>
                    if takeWhile is_digit r3 = [] then None
                    else Some (takeWhile is_digit r3))))"

text \<open>\<^verbatim>\<open>output.match(...)\<close> without the global flag: the leftmost match.\<close>

fun match_pr :: "string \<Rightarrow> string option" where
  "match_pr [] = None"
| "match_pr (c # cs) = (case pr_at (c # cs) of Some ds \<Rightarrow> Some ds | None \<Rightarrow> match_pr cs)"

text \<open>The pattern \<^verbatim>\<open>#(\d+)\<close> anchored at the head of the string.\<close>

definition issue_at :: "string \<Rightarrow> string option" where
  "issue_at s =
     (case strip_prefix ''#'' s of
        None \<Rightarrow> None
      | Some r \<Rightarrow> if takeWhile is_digit r = [] then None else Some (takeWhile is_digit r))"

fun match_issue :: "string \<Rightarrow> string option" where
  "match_issue [] = None"
| "match_issue (c # cs) =
     (case issue_at (c # cs) of Some ds \<Rightarrow> Some ds | None \<Rightarrow> match_issue cs)"

section \<open>Configuration (config.ts)\<close>

record Repo =
  owner :: string
  name :: string
  default_branch :: string
  prompt_path :: string

text \<open>
  What the engine does not own is an input: the parsed configuration, the clock
  (\<^verbatim>\<open>new Date().toISOString()\<close>, one reading for the whole call), the file system as the
  workspace manager sees it, the shell (exit code and combined output of a command run in a
  directory), the agent process of each iteration of one driver invocation (it closes with
  an exit code, null when a signal ended it, and its combined output, or it fails to spawn),
  and the repository host's merge call. \<^verbatim>\<open>path.join\<close> belongs to the host's library and is a
  parameter too, and so is the host's arithmetic beyond \<^verbatim>\<open>Number.MAX_SAFE_INTEGER\<close>: the
  double that \<^verbatim>\<open>parseInt\<close> rounds a longer digit run to (\<open>to_number\<close>) and the text, in the
  end in exponent form, that such a number prints as (\<open>number_to_string\<close>).
\<close>

datatype ProcOutcome =
    Closed "int option" string
  | SpawnError string

record Env =
  repos :: "Repo list"
  user_keys :: "string \<rightharpoonup> string"
  default_api_key :: "string option"
  now :: string
  path_join :: "string \<Rightarrow> string \<Rightarrow> string"
  existsSync :: "string \<Rightarrow> bool"
  mkdirSync :: "string \<Rightarrow> string option"
  sh :: "string \<Rightarrow> string option \<Rightarrow> int option \<times> string"
  droid :: "int \<Rightarrow> ProcOutcome"
  mergePR :: "string \<Rightarrow> string \<Rightarrow> nat \<Rightarrow> bool"
  to_number :: "string \<Rightarrow> nat"
  number_to_string :: "nat \<Rightarrow> string"

definition getRepo :: "Env \<Rightarrow> string \<Rightarrow> string \<Rightarrow> Repo option" where
  "getRepo env own nm = find (\<lambda>r. owner r = own \<and> name r = nm) (repos env)"

text \<open>\<^verbatim>\<open>cfg.user_keys[userId] || cfg.factory?.default_api_key\<close>: an empty key is falsy.\<close>

definition getFactoryKey :: "Env \<Rightarrow> string \<Rightarrow> string option" where
  "getFactoryKey env userId =
     (case user_keys env userId of
        None \<Rightarrow> default_api_key env
      | Some k \<Rightarrow> if k = [] then default_api_key env else Some k)"

text \<open>
  \<^verbatim>\<open>parseInt(ds, 10)\<close> on a run of decimal digits: the number the digits spell when it is
  at most \<^verbatim>\<open>Number.MAX_SAFE_INTEGER\<close>, and otherwise the double the host rounds it to.
\<close>

definition parseInt :: "Env \<Rightarrow> string \<Rightarrow> nat" where
  "parseInt env ds =
     (if decimal ds \<le> MAX_SAFE_INTEGER then decimal ds else to_number env ds)"

text \<open>A number inside a template string.\<close>

definition show_number :: "Env \<Rightarrow> nat \<Rightarrow> string" where
  "show_number env n = (if n \<le> MAX_SAFE_INTEGER then show_nat n else number_to_string env n)"

section \<open>Workspace Manager and Process Runner (loop.ts)\<close>

definition WORKSPACE_DIR :: string where
  "WORKSPACE_DIR = ''./workspaces''"

text \<open>A promise that rejects is \<open>Inl\<close> of the error's message.\<close>

definition execCommand :: "Env \<Rightarrow> string \<Rightarrow> string option \<Rightarrow> string + string" where
  "execCommand env cmd cwd =
     (case sh env cmd cwd of
        (code, out) \<Rightarrow>
          if code = Some 0 then Inr out
          else Inl (''Command failed: '' @ cmd @ [CHR 0x0A] @ out))"

definition ensureWorkspace :: "Env \<Rightarrow> string \<Rightarrow> string \<Rightarrow> string \<Rightarrow> string \<Rightarrow> string + unit" where
  "ensureWorkspace env dir own repo branch =
     (case (if \<not> existsSync env WORKSPACE_DIR then mkdirSync env WORKSPACE_DIR else None) of
        Some e \<Rightarrow> Inl e
      | None \<Rightarrow>
          if \<not> existsSync env dir then
            (case execCommand env
                    (''git clone https://github.com/'' @ own @ ''/'' @ repo @ ''.git '' @ dir) None of
               Inl e \<Rightarrow> Inl e
             | Inr _ \<Rightarrow> Inr ())
          else
            (case execCommand env
                    (''git fetch origin && git reset --hard origin/'' @ branch) (Some dir) of
               Inl e \<Rightarrow> Inl e
             | Inr _ \<Rightarrow> Inr ()))"

definition show_code :: "int option \<Rightarrow> string" where
  "show_code code = (case code of None \<Rightarrow> ''null'' | Some k \<Rightarrow> show_int k)"

text \<open>
  One run of the agent in iteration \<open>i\<close>: the process is entered in the registry when it is
  spawned and taken out when it closes or fails to spawn, so the promise settles with no
  entry for the loop.
\<close>

definition runIteration ::
  "Env \<Rightarrow> string \<Rightarrow> string \<Rightarrow> string \<Rightarrow> string \<Rightarrow> int \<Rightarrow> World \<Rightarrow> (string + string) \<times> World" where
  "runIteration env lid workspaceDir factoryKey promptPath i w =
     (let w1 = w\<lparr>events := events w @ [ProcSpawned lid workspaceDir promptPath],
                 activeProcesses := (activeProcesses w)(lid := None)\<rparr>
      in case droid env i of
           Closed code fullOutput \<Rightarrow>
             if code = Some 0 \<or> str_includes fullOutput ''<done>'' then (Inr fullOutput, w1)
             else (Inl (''Droid exited with code '' @ show_code code @ '': ''
                          @ slice_last 500 fullOutput), w1)
         | SpawnError msg \<Rightarrow> (Inl msg, w1))"

section \<open>Iteration Driver (loop.ts)\<close>

text \<open>
  One call of an operation is followed from its start to its end with no other operation
  in between; what another operation may have written before an iteration boundary is
  covered by stating the facts about the loop for every state it can start from.

  \<^verbatim>\<open>LoopCallbacks\<close>: every hook is optional, so the record says which ones the caller
  supplied. A hook is an observer that returns normally: calling it adds the call to the
  trace and changes nothing else.
\<close>

record LoopCallbacks =
  onStart :: bool
  onIteration :: bool
  onTaskComplete :: bool
  onWaitingApproval :: bool
  onComplete :: bool
  onError :: bool

definition no_callbacks :: LoopCallbacks where
  "no_callbacks = \<lparr>onStart = False, onIteration = False, onTaskComplete = False,
     onWaitingApproval = False, onComplete = False, onError = False\<rparr>"

text \<open>\<^verbatim>\<open>callbacks.hook?.(...)\<close>\<close>

definition call :: "bool \<Rightarrow> Event \<Rightarrow> World \<Rightarrow> World" where
  "call supplied ev w = (if supplied then w\<lparr>events := events w @ [ev]\<rparr> else w)"

definition status_str :: "LoopStatus \<Rightarrow> string" where
  "status_str s =
     (case s of Pending \<Rightarrow> ''pending'' | Running \<Rightarrow> ''running'' | Paused \<Rightarrow> ''paused''
      | Waiting_approval \<Rightarrow> ''waiting_approval'' | Complete \<Rightarrow> ''complete''
      | Error \<Rightarrow> ''error'' | Stopped \<Rightarrow> ''stopped'')"

text \<open>\<^verbatim>\<open>issueNumber || 0\<close>\<close>

definition or_zero :: "nat option \<Rightarrow> nat" where
  "or_zero n = (case n of None \<Rightarrow> 0 | Some k \<Rightarrow> k)"

text \<open>How one pass through the body of the \<^verbatim>\<open>for\<close> loop of \<^verbatim>\<open>startLoop\<close> ends.\<close>

datatype Control =
    Continue World
  | Break World
  | Return World
  | Throw string World

text \<open>Lines 64 to 89: the classification of the output of a run that resolved.\<close>

definition classify ::
  "Env \<Rightarrow> LoopCallbacks \<Rightarrow> string \<Rightarrow> Loop \<Rightarrow> string \<Rightarrow> World \<Rightarrow> Control" where
  "classify env cb lid loop output w =
     (if str_includes output ''<done>COMPLETE</done>''
         \<or> str_includes output ''<done>NO_TASKS</done>'' then
        (let w1 = completeLoop lid (now env) w;
             w2 = logLoop lid ''All tasks complete'' Info w1
         in Return (call (onComplete cb) (CbComplete (getLoop w2 lid)) w2))
      else
        (case match_pr output of
           None \<Rightarrow> Continue w
         | Some ds \<Rightarrow>
            (let prNumber = parseInt env ds;
                 issueNumber = map_option (parseInt env) (match_issue output);
                 w1 = updateLoop lid
                        (\<lambda>l. l\<lparr>current_pr := Some prNumber, current_issue := issueNumber\<rparr>) w
             in if mode loop = Approval then
                  (let w2 = updateLoop lid (\<lambda>l. l\<lparr>status := Waiting_approval\<rparr>) w1;
                       w3 = logLoop lid (''Waiting for approval on PR #''
                                           @ show_number env prNumber)
                              Info w2
                   in Return (call (onWaitingApproval cb)
                        (CbWaitingApproval (getLoop w3 lid) (or_zero issueNumber) prNumber) w3))
                else
                  Continue (call (onTaskComplete cb)
                    (CbTaskComplete (getLoop w1 lid) (or_zero issueNumber) prNumber) w1))))"

text \<open>
  Lines 43 to 97: one pass through the loop body for the counter \<open>i\<close>. \<open>loop\<close> is the row
  read once at the start of \<^verbatim>\<open>startLoop\<close>; \<open>currentLoop\<close> is read afresh. Reading the
  status of a row that is gone is the host's TypeError.
\<close>

definition iteration ::
  "Env \<Rightarrow> LoopCallbacks \<Rightarrow> string \<Rightarrow> Loop \<Rightarrow> string \<Rightarrow> string \<Rightarrow> string \<Rightarrow> int \<Rightarrow> World
     \<Rightarrow> Control" where
  "iteration env cb lid loop workspaceDir factoryKey promptPath i w =
     (case getLoop w lid of
        None \<Rightarrow> Throw ''TypeError: null is not an object'' w
      | Some currentLoop \<Rightarrow>
          if status currentLoop = Stopped then
            Break (logLoop lid ''Loop stopped by user'' Info w)
          else if status currentLoop = Paused \<or> status currentLoop = Waiting_approval then
            Break (logLoop lid
                     (''Loop paused (status: '' @ status_str (status currentLoop) @ '')'') Info w)
          else
            (let w1 = updateLoop lid (\<lambda>l. l\<lparr>iteration_current := i\<rparr>) w;
                 w2 = logLoop lid (''Starting iteration '' @ show_int i @ ''/''
                                     @ show_int (iteration_max loop)) Info w1
             in case runIteration env lid workspaceDir factoryKey promptPath i w2 of
                  (Inr output, w3) \<Rightarrow>
                    classify env cb lid loop output
                      (call (onIteration cb) (CbIteration (getLoop w3 lid) i output) w3)
                | (Inl errorMsg, w3) \<Rightarrow>
                    (let w4 = failLoop lid errorMsg (now env) w3;
                         w5 = logLoop lid (''Error: '' @ errorMsg) Err w4
                     in Return (call (onError cb) (CbError (getLoop w5 lid) errorMsg) w5))))"

text \<open>Lines 100 to 106, after the loop.\<close>

definition after_loop ::
  "Env \<Rightarrow> LoopCallbacks \<Rightarrow> string \<Rightarrow> Loop \<Rightarrow> World \<Rightarrow> string option \<times> World" where
  "after_loop env cb lid loop w =
     (case getLoop w lid of
        None \<Rightarrow> (Some ''TypeError: null is not an object'', w)
      | Some finalLoop \<Rightarrow>
          if status finalLoop = Running then
            (let w1 = completeLoop lid (now env) w;
                 w2 = logLoop lid (''Reached iteration limit ('' @ show_int (iteration_max loop)
                                     @ '')'') Info w1
             in (None, call (onComplete cb) (CbComplete (getLoop w2 lid)) w2))
          else (None, w))"

text \<open>
  The \<^verbatim>\<open>for\<close> loop from the counter \<open>i\<close> on, and what follows it. The result is the
  message of the error the promise rejects with, if it does, and the state left behind.
\<close>

function run_iterations ::
  "Env \<Rightarrow> LoopCallbacks \<Rightarrow> string \<Rightarrow> Loop \<Rightarrow> string \<Rightarrow> string \<Rightarrow> string \<Rightarrow> int \<Rightarrow> World
     \<Rightarrow> string option \<times> World" where
  "run_iterations env cb lid loop workspaceDir factoryKey promptPath i w =
     (if i \<le> iteration_max loop then
        (case iteration env cb lid loop workspaceDir factoryKey promptPath i w of
           Continue w' \<Rightarrow>
             run_iterations env cb lid loop workspaceDir factoryKey promptPath (i + 1) w'
         | Break w' \<Rightarrow> after_loop env cb lid loop w'
         | Return w' \<Rightarrow> (None, w')
         | Throw e w' \<Rightarrow> (Some e, w'))
      else after_loop env cb lid loop w)"
  by pat_completeness auto
termination
  by (relation "measure (\<lambda>(env, cb, lid, loop, wd, k, pp, i, w). nat (iteration_max loop + 1 - i))")
     auto

definition startLoop :: "Env \<Rightarrow> LoopCallbacks \<Rightarrow> string \<Rightarrow> World \<Rightarrow> string option \<times> World" where
  "startLoop env cb lid w =
     (case getLoop w lid of
        None \<Rightarrow> (Some (''Loop not found: '' @ lid), w)
      | Some loop \<Rightarrow>
         (case getRepo env (repo_owner loop) (repo_name loop) of
            None \<Rightarrow>
              (Some (''Repo not configured: '' @ repo_owner loop @ ''/'' @ repo_name loop), w)
          | Some repoConfig \<Rightarrow>
             (case getFactoryKey env (started_by loop) of
                None \<Rightarrow> (Some (''No Factory API key for user '' @ started_by loop), w)
              | Some factoryKey \<Rightarrow>
                  if factoryKey = [] then
                    (Some (''No Factory API key for user '' @ started_by loop), w)
                  else
                   (let workspaceDir =
                          path_join env WORKSPACE_DIR (repo_owner loop @ ''-'' @ repo_name loop)
                    in case ensureWorkspace env workspaceDir (repo_owner loop) (repo_name loop)
                              (default_branch repoConfig) of
                         Inl e \<Rightarrow> (Some e, w)
                       | Inr _ \<Rightarrow>
                          (let w1 = updateLoop lid
                                      (\<lambda>l. l\<lparr>status := Running, started_at := Some (now env)\<rparr>) w;
                               w2 = logLoop lid ''Loop started'' Info w1;
                               w3 = call (onStart cb) (CbStart (getLoop w2 lid)) w2
                           in run_iterations env cb lid loop workspaceDir factoryKey
                                (prompt_path repoConfig) 1 w3)))))"

section \<open>Approval Controller (loop.ts)\<close>

definition ACTIVE :: "LoopStatus set" where
  "ACTIVE = {Running, Pending, Paused, Waiting_approval}"

definition stopLoopProcess :: "Env \<Rightarrow> string \<Rightarrow> World \<Rightarrow> bool \<times> World" where
  "stopLoopProcess env lid w =
     (case activeProcesses w lid of
        Some proc \<Rightarrow>
          (True, stopLoop lid (now env)
                   (w\<lparr>events := events w @ [ProcKilled proc],
                      activeProcesses := (activeProcesses w)(lid := None)\<rparr>))
      | None \<Rightarrow>
         (case getLoop w lid of
            None \<Rightarrow> (False, w)
          | Some loop \<Rightarrow>
              if status loop \<in> ACTIVE then (True, stopLoop lid (now env) w)
              else (False, w)))"

text \<open>\<^verbatim>\<open>if (loop.current_pr)\<close>: neither null nor zero.\<close>

definition truthy :: "nat option \<Rightarrow> bool" where
  "truthy n = (case n of None \<Rightarrow> False | Some k \<Rightarrow> k \<noteq> 0)"

definition show_opt :: "nat option \<Rightarrow> string" where
  "show_opt n = (case n of None \<Rightarrow> ''null'' | Some k \<Rightarrow> show_nat k)"

text \<open>
  The driver that approve and skip start is not awaited and its rejection goes to the
  console only, so the caller sees no error from it; the state returned is the one that
  driver leaves behind. It is started without hooks.
\<close>

definition approveAndContinue :: "Env \<Rightarrow> string \<Rightarrow> World \<Rightarrow> string option \<times> World" where
  "approveAndContinue env lid w =
     (case getLoop w lid of
        None \<Rightarrow> (Some ''Loop is not waiting for approval'', w)
      | Some loop \<Rightarrow>
          if status loop \<noteq> Waiting_approval then (Some ''Loop is not waiting for approval'', w)
          else
            (case (if truthy (current_pr loop) then
                     (let w0 = w\<lparr>events := events w
                                   @ [MergeCalled (repo_owner loop) (repo_name loop)
                                        (or_zero (current_pr loop))]\<rparr>
                      in if \<not> mergePR env (repo_owner loop) (repo_name loop)
                                 (or_zero (current_pr loop))
                         then Inl (''Failed to merge PR #'' @ show_opt (current_pr loop), w0)
                         else Inr (logLoop lid (''Merged PR #'' @ show_opt (current_pr loop))
                                     Info w0))
                   else Inr w) of
               Inl failure \<Rightarrow> (Some (fst failure), snd failure)
             | Inr w1 \<Rightarrow>
                (let w2 = updateLoop lid
                            (\<lambda>l. l\<lparr>status := Running, current_pr := None,
                                    current_issue := None\<rparr>) w1
                 in (None, snd (startLoop env no_callbacks lid w2)))))"

definition skipAndContinue :: "Env \<Rightarrow> string \<Rightarrow> World \<Rightarrow> string option \<times> World" where
  "skipAndContinue env lid w =
     (case getLoop w lid of
        None \<Rightarrow> (Some ''Loop is not waiting for approval'', w)
      | Some loop \<Rightarrow>
          if status loop \<noteq> Waiting_approval then (Some ''Loop is not waiting for approval'', w)
          else
            (let w1 = updateLoop lid
                        (\<lambda>l. l\<lparr>status := Running, current_pr := None, current_issue := None\<rparr>) w;
                 w2 = logLoop lid (''Skipped PR #'' @ show_opt (current_pr loop)) Info w1
             in (None, snd (startLoop env no_callbacks lid w2))))"

section \<open>Sample loops and environments\<close>

text \<open>
  A loop \<^verbatim>\<open>L\<close> on the configured repository \<^verbatim>\<open>o/r\<close> with a budget of three iterations, a
  store that holds only this loop, and an environment in which the workspace exists, every
  shell command and merge succeeds and the agent process ends as \<open>d\<close> says. The one
  digit run beyond \<^verbatim>\<open>Number.MAX_SAFE_INTEGER\<close> that the samples read is 9007199254740993;
  the host rounds it to the double 9007199254740992 and prints that number so.
\<close>

definition ex_loop :: Loop where
  "ex_loop = \<lparr>loop_id = ''L'', repo_owner = ''o'', repo_name = ''r'', channel_id = ''C'',
     thread_ts = None, status = Pending, mode = Auto, current_issue = None, current_pr = None,
     iteration_current = 0, iteration_max = 3, started_at = None, started_by = ''U'',
     completed_at = None, error = None, pid = None\<rparr>"

definition ex_world :: "Loop \<Rightarrow> World" where
  "ex_world l = \<lparr>loops = [''L'' \<mapsto> l], loop_logs = [], activeProcesses = Map.empty,
     events = []\<rparr>"

definition ex_env :: "(int \<Rightarrow> ProcOutcome) \<Rightarrow> Env" where
  "ex_env d = \<lparr>repos = [\<lparr>owner = ''o'', name = ''r'', default_branch = ''main'',
                         prompt_path = ''prompt.md''\<rparr>],
     user_keys = [''U'' \<mapsto> ''fac_key''], default_api_key = None,
     now = ''T1'', path_join = (\<lambda>a b. a @ ''/'' @ b),
     existsSync = (\<lambda>p. True), mkdirSync = (\<lambda>p. None), sh = (\<lambda>cmd cwd. (Some 0, [])),
     droid = d, mergePR = (\<lambda>ow r n. True),
     to_number = (\<lambda>ds. 9007199254740992),
     number_to_string = (\<lambda>n. ''9007199254740992'')\<rparr>"

text \<open>The number of agent processes spawned in a stretch of the trace.\<close>

definition is_spawn :: "Event \<Rightarrow> bool" where
  "is_spawn ev = (case ev of ProcSpawned _ _ _ \<Rightarrow> True | _ \<Rightarrow> False)"

definition spawns :: "Event list \<Rightarrow> nat" where
  "spawns evs = length (filter is_spawn evs)"

section \<open>Facts about the helpers\<close>

declare run_iterations.simps [simp del]

lemmas driver_defs = iteration_def runIteration_def classify_def call_def logLoop_def
  updateLoop_def completeLoop_def failLoop_def getLoop_def Let_def

lemmas setup_defs = startLoop_def getRepo_def getFactoryKey_def ensureWorkspace_def
  execCommand_def WORKSPACE_DIR_def

lemmas ex_defs = ex_env_def ex_world_def ex_loop_def no_callbacks_def

lemmas regex_defs = pr_at_def issue_at_def strip_prefix_def is_digit_def

lemmas number_defs = parseInt_def show_number_def decimal_def digit_val_def
  MAX_SAFE_INTEGER_def




lemma startsWith_append: "startsWith s (a @ b) \<Longrightarrow> startsWith s a"
  by (induction s a rule: startsWith.induct) auto

lemma str_includes_append: "str_includes s (a @ b) \<Longrightarrow> str_includes s a"
  by (induction s) (auto dest: startsWith_append)

text \<open>Both sentinels start with the marker that the process runner looks for.\<close>

lemma sentinel_has_marker:
  "str_includes out ''<done>COMPLETE</done>'' \<or> str_includes out ''<done>NO_TASKS</done>''
   \<Longrightarrow> str_includes out ''<done>''"
  using str_includes_append [of out "''<done>''" "''COMPLETE</done>''"]
        str_includes_append [of out "''<done>''" "''NO_TASKS</done>''"]
  by auto

lemma spawns_simps:
  "spawns [] = 0" "spawns (a @ b) = spawns a + spawns b"
  "spawns (ProcSpawned x y z # evs) = Suc (spawns evs)"
  "spawns (CbStart l # evs) = spawns evs"
  "spawns (CbIteration l i out # evs) = spawns evs"
  "spawns (CbTaskComplete l n m # evs) = spawns evs"
  "spawns (CbWaitingApproval l n m # evs) = spawns evs"
  "spawns (CbComplete l # evs) = spawns evs"
  "spawns (CbError l msg # evs) = spawns evs"
  "spawns (ProcKilled p # evs) = spawns evs"
  "spawns (MergeCalled x y n # evs) = spawns evs"
  by (simp_all add: spawns_def is_spawn_def)

text \<open>What a pass through the loop body does to the counter and to the trace.\<close>

lemma classify_effect:
  assumes "loops w lid = Some cur"
  shows "\<exists>w' l' evs. (classify env cb lid loop out w = Continue w'
                        \<or> classify env cb lid loop out w = Return w')
           \<and> loops w' lid = Some l' \<and> iteration_current l' = iteration_current cur
           \<and> events w' = events w @ evs \<and> spawns evs = 0"
  using assms
  by (auto simp: classify_def call_def logLoop_def updateLoop_def completeLoop_def getLoop_def
        Let_def spawns_simps split: option.splits)

lemma runIteration_effect:
  "\<exists>r. runIteration env lid wd k pp i w =
         (r, w\<lparr>events := events w @ [ProcSpawned lid wd pp],
               activeProcesses := (activeProcesses w)(lid := None)\<rparr>)"
  by (auto simp: runIteration_def Let_def split: ProcOutcome.splits)

lemma iteration_effect:
  assumes "loops w lid = Some cur"
  shows "(\<exists>w'. iteration env cb lid loop wd k pp i w = Break w'
             \<and> loops w' = loops w \<and> events w' = events w
             \<and> (status cur = Stopped \<or> status cur = Paused \<or> status cur = Waiting_approval))
       \<or> (\<exists>w' l' evs. (iteration env cb lid loop wd k pp i w = Continue w'
                          \<or> iteration env cb lid loop wd k pp i w = Return w')
             \<and> loops w' lid = Some l' \<and> iteration_current l' = i
             \<and> events w' = events w @ evs \<and> spawns evs = 1
             \<and> status cur \<noteq> Stopped \<and> status cur \<noteq> Paused \<and> status cur \<noteq> Waiting_approval)"
proof (cases "status cur = Stopped \<or> status cur = Paused \<or> status cur = Waiting_approval")
  case True
  with assms show ?thesis
    by (auto simp: iteration_def logLoop_def getLoop_def)
next
  case False
  let ?w2 = "logLoop lid (''Starting iteration '' @ show_int i @ ''/''
               @ show_int (iteration_max loop)) Info
               (updateLoop lid (\<lambda>l. l\<lparr>iteration_current := i\<rparr>) w)"
  let ?w3 = "?w2\<lparr>events := events ?w2 @ [ProcSpawned lid wd pp],
                  activeProcesses := (activeProcesses ?w2)(lid := None)\<rparr>"
  obtain r where r: "runIteration env lid wd k pp i ?w2 = (r, ?w3)"
    using runIteration_effect [of env lid wd k pp i ?w2] by blast
  have l3: "loops ?w3 lid = Some (cur\<lparr>iteration_current := i\<rparr>)"
    and e3: "events ?w3 = events w @ [ProcSpawned lid wd pp]"
    using assms by (simp_all add: logLoop_def updateLoop_def)
  show ?thesis
  proof (cases r)
    case (Inl errorMsg)
    have "iteration env cb lid loop wd k pp i w =
            Return (call (onError cb)
                      (CbError (getLoop (logLoop lid (''Error: '' @ errorMsg) Err
                                   (failLoop lid errorMsg (now env) ?w3)) lid) errorMsg)
                      (logLoop lid (''Error: '' @ errorMsg) Err
                         (failLoop lid errorMsg (now env) ?w3)))"
      using assms False r Inl by (simp add: iteration_def getLoop_def Let_def)
    moreover have "\<exists>l' evs. loops (call (onError cb)
                      (CbError (getLoop (logLoop lid (''Error: '' @ errorMsg) Err
                                   (failLoop lid errorMsg (now env) ?w3)) lid) errorMsg)
                      (logLoop lid (''Error: '' @ errorMsg) Err
                         (failLoop lid errorMsg (now env) ?w3))) lid = Some l'
            \<and> iteration_current l' = i
            \<and> events (call (onError cb)
                      (CbError (getLoop (logLoop lid (''Error: '' @ errorMsg) Err
                                   (failLoop lid errorMsg (now env) ?w3)) lid) errorMsg)
                      (logLoop lid (''Error: '' @ errorMsg) Err
                         (failLoop lid errorMsg (now env) ?w3))) = events w @ evs
            \<and> spawns evs = 1"
      using assms
      by (auto simp: call_def logLoop_def failLoop_def updateLoop_def getLoop_def spawns_simps)
    ultimately show ?thesis using False by blast
  next
    case (Inr outp)
    let ?w4 = "call (onIteration cb) (CbIteration (getLoop ?w3 lid) i outp) ?w3"
    have it: "iteration env cb lid loop wd k pp i w = classify env cb lid loop outp ?w4"
      using assms False r Inr by (simp add: iteration_def getLoop_def Let_def)
    have l4: "loops ?w4 lid = Some (cur\<lparr>iteration_current := i\<rparr>)"
      using l3 by (simp add: call_def)
    have e4: "\<exists>evs. events ?w4 = events w @ evs \<and> spawns evs = 1"
      using e3 by (auto simp: call_def spawns_simps)
    from classify_effect [OF l4, of env cb loop outp] e4 it
    show ?thesis using False by (auto simp: spawns_simps)
  qed
qed

lemma after_loop_effect:
  assumes "loops w lid = Some cur"
  shows "\<exists>w' l' evs. after_loop env cb lid loop w = (None, w')
           \<and> loops w' lid = Some l' \<and> iteration_current l' = iteration_current cur
           \<and> events w' = events w @ evs \<and> spawns evs = 0"
  using assms
  by (auto simp: after_loop_def call_def logLoop_def updateLoop_def completeLoop_def getLoop_def
        Let_def spawns_simps)

text \<open>
  The counter after a run of the loop from \<open>i\<close>: untouched when no process was spawned,
  otherwise \<open>i\<close> plus the number of processes spawned less one, within the budget.
\<close>

lemma run_iterations_counter:
  "loops w lid = Some cur \<Longrightarrow>
   \<exists>w' l' evs. run_iterations env cb lid loop wd k pp i w = (None, w')
      \<and> loops w' lid = Some l' \<and> events w' = events w @ evs
      \<and> (spawns evs = 0 \<longrightarrow> iteration_current l' = iteration_current cur)
      \<and> (0 < spawns evs \<longrightarrow> iteration_current l' = i + int (spawns evs) - 1
                               \<and> iteration_current l' \<le> iteration_max loop)
      \<and> (i \<le> iteration_max loop \<and> status cur \<noteq> Stopped \<and> status cur \<noteq> Paused
           \<and> status cur \<noteq> Waiting_approval \<longrightarrow> 0 < spawns evs)"
proof (induction env cb lid loop wd k pp i w arbitrary: cur rule: run_iterations.induct)
  case (1 env cb lid loop wd k pp i w)
  show ?case
  proof (cases "i \<le> iteration_max loop")
    case False
    then have eq: "run_iterations env cb lid loop wd k pp i w = after_loop env cb lid loop w"
      by (subst run_iterations.simps) simp
    from after_loop_effect [OF "1.prems", of env cb loop] False
    show ?thesis unfolding eq by fastforce
  next
    case True
    from iteration_effect [OF "1.prems", of env cb loop wd k pp i]
    consider
      (brk) w1 where "iteration env cb lid loop wd k pp i w = Break w1"
          "loops w1 = loops w" "events w1 = events w"
          "status cur = Stopped \<or> status cur = Paused \<or> status cur = Waiting_approval"
    | (ret) w1 l1 evs1 where "iteration env cb lid loop wd k pp i w = Return w1"
          "loops w1 lid = Some l1" "iteration_current l1 = i"
          "events w1 = events w @ evs1" "spawns evs1 = 1"
    | (cont) w1 l1 evs1 where "iteration env cb lid loop wd k pp i w = Continue w1"
          "loops w1 lid = Some l1" "iteration_current l1 = i"
          "events w1 = events w @ evs1" "spawns evs1 = 1"
      by blast
    then show ?thesis
    proof cases
      case brk
      have eq: "run_iterations env cb lid loop wd k pp i w = after_loop env cb lid loop w1"
        using True brk(1) by (subst run_iterations.simps) simp
      have "loops w1 lid = Some cur" using brk(2) "1.prems" by simp
      from after_loop_effect [OF this, of env cb loop] brk
      show ?thesis unfolding eq by fastforce
    next
      case ret
      have eq: "run_iterations env cb lid loop wd k pp i w = (None, w1)"
        using True ret(1) by (subst run_iterations.simps) simp
      show ?thesis unfolding eq using ret True by fastforce
    next
      case cont
      have eq: "run_iterations env cb lid loop wd k pp i w
                  = run_iterations env cb lid loop wd k pp (i + 1) w1"
        using True cont(1) by (subst run_iterations.simps) simp
      from "1.IH" [OF True cont(1) cont(2)]
      obtain w' l' evs where r:
        "run_iterations env cb lid loop wd k pp (i + 1) w1 = (None, w')"
        "loops w' lid = Some l'" "events w' = events w1 @ evs"
        "spawns evs = 0 \<longrightarrow> iteration_current l' = iteration_current l1"
        "0 < spawns evs \<longrightarrow> iteration_current l' = i + 1 + int (spawns evs) - 1
                               \<and> iteration_current l' \<le> iteration_max loop"
        by (elim exE conjE) (rule that; assumption)
      have ev: "events w' = events w @ (evs1 @ evs)" using r(3) cont(4) by simp
      have sp: "spawns (evs1 @ evs) = Suc (spawns evs)" using cont(5) by (simp add: spawns_simps)
      have cnt: "iteration_current l' = i + int (spawns (evs1 @ evs)) - 1
                 \<and> iteration_current l' \<le> iteration_max loop"
        using r(4,5) cont(3) True sp by (cases "spawns evs = 0") auto
      show ?thesis unfolding eq using r(1,2) ev cnt sp
        by (intro exI [of _ w'] exI [of _ l'] exI [of _ "evs1 @ evs"]) simp
    qed
  qed
qed

lemma startLoop_ok:
  assumes "getLoop w lid = Some loop"
    and "getRepo env (repo_owner loop) (repo_name loop) = Some rc"
    and "getFactoryKey env (started_by loop) = Some key" and "key \<noteq> []"
    and "ensureWorkspace env (path_join env WORKSPACE_DIR (repo_owner loop @ ''-'' @ repo_name loop))
           (repo_owner loop) (repo_name loop) (default_branch rc) = Inr ()"
  shows "startLoop env cb lid w =
           run_iterations env cb lid loop
             (path_join env WORKSPACE_DIR (repo_owner loop @ ''-'' @ repo_name loop))
             key (prompt_path rc) 1
             (call (onStart cb)
                (CbStart (Some (loop\<lparr>status := Running, started_at := Some (now env)\<rparr>)))
                (logLoop lid ''Loop started'' Info
                   (updateLoop lid (\<lambda>l. l\<lparr>status := Running, started_at := Some (now env)\<rparr>) w)))"
  using assms
  by (simp add: startLoop_def Let_def getLoop_def logLoop_def updateLoop_def)

text \<open>
  A driver invocation whose set-up succeeds on a budget of at least one iteration: it
  resolves, it spawns at least one process, and the counter it leaves is the number of
  processes it spawned, whatever the counter was before.
\<close>

lemma startLoop_counter:
  assumes "getLoop w lid = Some loop"
    and "getRepo env (repo_owner loop) (repo_name loop) = Some rc"
    and "getFactoryKey env (started_by loop) = Some key" and "key \<noteq> []"
    and "ensureWorkspace env (path_join env WORKSPACE_DIR (repo_owner loop @ ''-'' @ repo_name loop))
           (repo_owner loop) (repo_name loop) (default_branch rc) = Inr ()"
    and "1 \<le> iteration_max loop"
  shows "\<exists>w' l' evs. startLoop env cb lid w = (None, w')
            \<and> getLoop w' lid = Some l' \<and> events w' = events w @ evs
            \<and> iteration_current l' = int (spawns evs)
            \<and> 1 \<le> iteration_current l' \<and> iteration_current l' \<le> iteration_max loop"
proof -
  let ?w3 = "call (onStart cb)
                (CbStart (Some (loop\<lparr>status := Running, started_at := Some (now env)\<rparr>)))
                (logLoop lid ''Loop started'' Info
                   (updateLoop lid (\<lambda>l. l\<lparr>status := Running, started_at := Some (now env)\<rparr>) w))"
  let ?cur = "loop\<lparr>status := Running, started_at := Some (now env)\<rparr>"
  have l3: "loops ?w3 lid = Some ?cur"
    using assms(1) by (simp add: call_def logLoop_def updateLoop_def getLoop_def)
  have "\<exists>evs0. events ?w3 = events w @ evs0 \<and> spawns evs0 = 0"
    by (auto simp: call_def logLoop_def updateLoop_def spawns_simps split: option.splits)
  then obtain evs0 where e3: "events ?w3 = events w @ evs0" "spawns evs0 = 0" by blast
  from run_iterations_counter [OF l3, of env cb loop
         "path_join env WORKSPACE_DIR (repo_owner loop @ ''-'' @ repo_name loop)" key
         "prompt_path rc" 1]
  obtain w' l' evs where r:
    "run_iterations env cb lid loop
       (path_join env WORKSPACE_DIR (repo_owner loop @ ''-'' @ repo_name loop)) key
       (prompt_path rc) 1 ?w3 = (None, w')"
    "loops w' lid = Some l'" "events w' = events ?w3 @ evs"
    "0 < spawns evs \<longrightarrow> iteration_current l' = 1 + int (spawns evs) - 1
                               \<and> iteration_current l' \<le> iteration_max loop"
    "1 \<le> iteration_max loop \<and> status ?cur \<noteq> Stopped \<and> status ?cur \<noteq> Paused
           \<and> status ?cur \<noteq> Waiting_approval \<longrightarrow> 0 < spawns evs"
    by (elim exE conjE) (rule that; assumption)
  have pos: "0 < spawns evs" using r(5) assms(6) by simp
  have "startLoop env cb lid w = (None, w')"
    using startLoop_ok [OF assms(1-5)] r(1) by simp
  moreover have "events w' = events w @ (evs0 @ evs)" using r(3) e3(1) by simp
  moreover have "spawns (evs0 @ evs) = spawns evs" using e3(2) by (simp add: spawns_simps)
  ultimately show ?thesis using r(2,4) pos
    by (intro exI [of _ w'] exI [of _ l'] exI [of _ "evs0 @ evs"]) (simp add: getLoop_def)
qed

lemma approve_success:
  assumes "getLoop w lid = Some l" and "status l = Waiting_approval"
    and "current_pr l = None \<or> current_pr l = Some 0
             \<or> mergePR env (repo_owner l) (repo_name l) (or_zero (current_pr l))"
  shows "\<exists>w' m. approveAndContinue env lid w = (None, snd (startLoop env no_callbacks lid w'))
           \<and> getLoop w' lid
               = Some (l\<lparr>status := Running, current_pr := None, current_issue := None\<rparr>)
           \<and> events w' = events w @ m \<and> spawns m = 0"
proof -
  let ?w1 = "(if truthy (current_pr l)
       then logLoop lid (''Merged PR #'' @ show_opt (current_pr l)) Info
              (w\<lparr>events := events w
                   @ [MergeCalled (repo_owner l) (repo_name l) (or_zero (current_pr l))]\<rparr>)
       else w)"
  let ?w2 = "updateLoop lid
        (\<lambda>l. l\<lparr>status := Running, current_pr := None, current_issue := None\<rparr>) ?w1"
  from assms(3) have ok: "truthy (current_pr l)
        \<Longrightarrow> mergePR env (repo_owner l) (repo_name l) (or_zero (current_pr l))"
    by (auto simp: truthy_def)
  have "approveAndContinue env lid w = (None, snd (startLoop env no_callbacks lid ?w2))"
    using assms(1,2) ok by (simp add: approveAndContinue_def Let_def)
  moreover have "getLoop ?w2 lid
        = Some (l\<lparr>status := Running, current_pr := None, current_issue := None\<rparr>)"
    using assms(1) by (simp add: updateLoop_def logLoop_def getLoop_def)
  moreover have "\<exists>m. events ?w2 = events w @ m \<and> spawns m = 0"
    using assms(1) by (simp add: updateLoop_def logLoop_def getLoop_def spawns_simps)
  ultimately show ?thesis by blast
qed

lemma skip_success:
  assumes "getLoop w lid = Some l" and "status l = Waiting_approval"
  shows "\<exists>w'. skipAndContinue env lid w = (None, snd (startLoop env no_callbacks lid w'))
           \<and> getLoop w' lid
               = Some (l\<lparr>status := Running, current_pr := None, current_issue := None\<rparr>)
           \<and> events w' = events w"
proof -
  let ?w2 = "logLoop lid (''Skipped PR #'' @ show_opt (current_pr l)) Info
      (updateLoop lid
        (\<lambda>l. l\<lparr>status := Running, current_pr := None, current_issue := None\<rparr>) w)"
  have "skipAndContinue env lid w = (None, snd (startLoop env no_callbacks lid ?w2))"
    using assms by (simp add: skipAndContinue_def Let_def)
  moreover have "getLoop ?w2 lid
        = Some (l\<lparr>status := Running, current_pr := None, current_issue := None\<rparr>)"
    using assms by (simp add: updateLoop_def logLoop_def getLoop_def)
  moreover have "events ?w2 = events w"
    using assms by (simp add: updateLoop_def logLoop_def getLoop_def)
  ultimately show ?thesis by blast
qed

text \<open>The three ways the workspace set-up fails, each with its message.\<close>

lemma ensureWorkspace_mkdir_fails:
  assumes "\<not> existsSync env WORKSPACE_DIR" and "mkdirSync env WORKSPACE_DIR = Some m"
  shows "ensureWorkspace env dir own repo branch = Inl m"
  using assms by (simp add: ensureWorkspace_def)

lemma ensureWorkspace_clone_fails:
  assumes "existsSync env WORKSPACE_DIR \<or> mkdirSync env WORKSPACE_DIR = None"
    and "\<not> existsSync env dir"
    and "fst (sh env (''git clone https://github.com/'' @ own @ ''/'' @ repo @ ''.git '' @ dir)
                None) \<noteq> Some 0"
  shows "ensureWorkspace env dir own repo branch =
           Inl (''Command failed: ''
                  @ (''git clone https://github.com/'' @ own @ ''/'' @ repo @ ''.git '' @ dir)
                  @ [CHR 0x0A]
                  @ snd (sh env (''git clone https://github.com/'' @ own @ ''/'' @ repo
                                   @ ''.git '' @ dir) None))"
  using assms
  by (auto simp: ensureWorkspace_def execCommand_def split: prod.splits)

lemma ensureWorkspace_fetch_fails:
  assumes "existsSync env WORKSPACE_DIR \<or> mkdirSync env WORKSPACE_DIR = None"
    and "existsSync env dir"
    and "fst (sh env (''git fetch origin && git reset --hard origin/'' @ branch) (Some dir))
           \<noteq> Some 0"
  shows "ensureWorkspace env dir own repo branch =
           Inl (''Command failed: ''
                  @ (''git fetch origin && git reset --hard origin/'' @ branch)
                  @ [CHR 0x0A]
                  @ snd (sh env (''git fetch origin && git reset --hard origin/'' @ branch)
                           (Some dir)))"
  using assms
  by (auto simp: ensureWorkspace_def execCommand_def split: prod.splits)

text \<open>A failed set-up is the rejection of the driver, with nothing written.\<close>

lemma startLoop_setup_fails:
  assumes "getLoop w lid = Some loop"
    and "getRepo env (repo_owner loop) (repo_name loop) = Some rc"
    and "getFactoryKey env (started_by loop) = Some key" and "key \<noteq> []"
    and "ensureWorkspace env (path_join env WORKSPACE_DIR (repo_owner loop @ ''-'' @ repo_name loop))
           (repo_owner loop) (repo_name loop) (default_branch rc) = Inl e"
  shows "startLoop env cb lid w = (Some e, w)"
  using assms by (simp add: startLoop_def)

section \<open>Facts about the patterns\<close>

lemma startsWith_iff: "startsWith s p = (\<exists>r. s = p @ r)"
  by (induction s p rule: startsWith.induct) auto

lemma strip_prefix_Some: "(strip_prefix p s = Some r) = (s = p @ r)"
  by (auto simp: strip_prefix_def startsWith_iff)

lemma strip_prefix_None: "(strip_prefix p s = None) = (\<forall>r. s \<noteq> p @ r)"
  by (auto simp: strip_prefix_def startsWith_iff)

text \<open>\<^verbatim>\<open>s.includes(t)\<close> holds exactly when \<open>t\<close> lies somewhere in \<open>s\<close>.\<close>

lemma str_includes_iff: "str_includes s t = (\<exists>pre post. s = pre @ t @ post)"
proof (induction s)
  case Nil
  then show ?case by auto
next
  case (Cons c cs)
  show ?case
  proof
    assume "str_includes (c # cs) t"
    then consider "startsWith (c # cs) t" | "str_includes cs t" by auto
    then show "\<exists>pre post. c # cs = pre @ t @ post"
    proof cases
      case 1
      then obtain r where "c # cs = t @ r" by (auto simp: startsWith_iff)
      then have "c # cs = [] @ t @ r" by simp
      then show ?thesis by blast
    next
      case 2
      with Cons.IH obtain pre post where "cs = pre @ t @ post" by blast
      then have "c # cs = (c # pre) @ t @ post" by simp
      then show ?thesis by blast
    qed
  next
    assume "\<exists>pre post. c # cs = pre @ t @ post"
    then obtain pre post where e: "c # cs = pre @ t @ post" by blast
    show "str_includes (c # cs) t"
    proof (cases pre)
      case Nil
      with e have "startsWith (c # cs) t" by (auto simp: startsWith_iff)
      then show ?thesis by simp
    next
      case (Cons p ps)
      with e have "cs = ps @ t @ post" by simp
      with Cons.IH have "str_includes cs t" by blast
      then show ?thesis by simp
    qed
  qed
qed

text \<open>
  The issue pattern at the head of a string: a hash sign and then the longest run of
  digits, which is not empty.
\<close>

lemma issue_at_Some:
  "(issue_at s = Some ds) =
     (\<exists>rest. s = CHR ''#'' # ds @ rest \<and> ds \<noteq> [] \<and> (\<forall>c\<in>set ds. is_digit c)
             \<and> (\<forall>d r. rest = d # r \<longrightarrow> \<not> is_digit d))"
proof
  assume "issue_at s = Some ds"
  then obtain r where r: "s = CHR ''#'' # r" "ds = takeWhile is_digit r" "ds \<noteq> []"
    by (auto simp: issue_at_def strip_prefix_Some split: option.splits if_splits)
  have "r = ds @ dropWhile is_digit r" using r(2) by simp
  moreover have "\<forall>c\<in>set ds. is_digit c" using r(2) by (auto dest: set_takeWhileD)
  moreover have "\<forall>d r'. dropWhile is_digit r = d # r' \<longrightarrow> \<not> is_digit d"
    by (metis hd_dropWhile list.sel(1) list.distinct(1))
  ultimately show "\<exists>rest. s = CHR ''#'' # ds @ rest \<and> ds \<noteq> [] \<and> (\<forall>c\<in>set ds. is_digit c)
             \<and> (\<forall>d r. rest = d # r \<longrightarrow> \<not> is_digit d)"
    using r(1,3) by (intro exI [of _ "dropWhile is_digit r"]) simp
next
  assume "\<exists>rest. s = CHR ''#'' # ds @ rest \<and> ds \<noteq> [] \<and> (\<forall>c\<in>set ds. is_digit c)
             \<and> (\<forall>d r. rest = d # r \<longrightarrow> \<not> is_digit d)"
  then obtain rest where h: "s = CHR ''#'' # ds @ rest" "ds \<noteq> []" "\<forall>c\<in>set ds. is_digit c"
      "\<forall>d r. rest = d # r \<longrightarrow> \<not> is_digit d" by blast
  have "takeWhile is_digit (ds @ rest) = ds"
    using h(3,4) by (cases rest) (simp_all add: takeWhile_append)
  then show "issue_at s = Some ds"
    using h(1,2) by (simp add: issue_at_def strip_prefix_def)
qed

lemma issue_at_None:
  "(issue_at s = None) = (\<forall>d r. s = CHR ''#'' # d # r \<longrightarrow> \<not> is_digit d)"
proof (cases s)
  case Nil
  then show ?thesis by (simp add: issue_at_def strip_prefix_def)
next
  case (Cons c cs)
  then show ?thesis
    by (cases cs) (auto simp: issue_at_def strip_prefix_def)
qed

text \<open>
  \<^verbatim>\<open>match(/#(\d+)/)\<close> finds nothing exactly when no hash sign is followed by a digit, and
  otherwise gives the digits of the first hash sign that is.
\<close>

lemma match_issue_None:
  "(match_issue s = None) = (\<forall>pre d rest. s = pre @ CHR ''#'' # d # rest \<longrightarrow> \<not> is_digit d)"
proof (induction s)
  case Nil
  then show ?case by simp
next
  case (Cons c cs)
  show ?case
  proof
    assume n: "match_issue (c # cs) = None"
    then have a: "issue_at (c # cs) = None" and b: "match_issue cs = None"
      by (auto split: option.splits)
    show "\<forall>pre d rest. c # cs = pre @ CHR ''#'' # d # rest \<longrightarrow> \<not> is_digit d"
    proof (intro allI impI)
      fix pre d rest
      assume e: "c # cs = pre @ CHR ''#'' # d # rest"
      show "\<not> is_digit d"
      proof (cases pre)
        case Nil
        with e a show ?thesis by (auto simp: issue_at_None)
      next
        case (Cons p ps)
        with e have "cs = ps @ CHR ''#'' # d # rest" by simp
        with b Cons.IH show ?thesis by blast
      qed
    qed
  next
    assume h: "\<forall>pre d rest. c # cs = pre @ CHR ''#'' # d # rest \<longrightarrow> \<not> is_digit d"
    have a: "issue_at (c # cs) = None"
      unfolding issue_at_None using h [rule_format, of "[]"] by auto
    have "\<forall>pre d rest. cs = pre @ CHR ''#'' # d # rest \<longrightarrow> \<not> is_digit d"
    proof (intro allI impI)
      fix pre d rest
      assume "cs = pre @ CHR ''#'' # d # rest"
      then have "c # cs = (c # pre) @ CHR ''#'' # d # rest" by simp
      with h show "\<not> is_digit d" by blast
    qed
    with Cons.IH have "match_issue cs = None" by blast
    with a show "match_issue (c # cs) = None" by simp
  qed
qed

lemma match_issue_Some:
  "match_issue s = Some ds \<Longrightarrow>
     \<exists>pre rest. s = pre @ CHR ''#'' # ds @ rest \<and> ds \<noteq> [] \<and> (\<forall>c\<in>set ds. is_digit c)
        \<and> (\<forall>d r. rest = d # r \<longrightarrow> \<not> is_digit d)
        \<and> match_issue (pre @ ''#'') = None"
proof (induction s)
  case Nil
  then show ?case by simp
next
  case (Cons c cs)
  show ?case
  proof (cases "issue_at (c # cs)")
    case (Some ds')
    with Cons.prems have "issue_at (c # cs) = Some ds" by simp
    then obtain rest where "c # cs = CHR ''#'' # ds @ rest" "ds \<noteq> []" "\<forall>c\<in>set ds. is_digit c"
        "\<forall>d r. rest = d # r \<longrightarrow> \<not> is_digit d"
      unfolding issue_at_Some by blast
    then have "c # cs = [] @ CHR ''#'' # ds @ rest \<and> ds \<noteq> [] \<and> (\<forall>c\<in>set ds. is_digit c)
        \<and> (\<forall>d r. rest = d # r \<longrightarrow> \<not> is_digit d) \<and> match_issue ([] @ ''#'') = None"
      by (simp add: issue_at_def strip_prefix_def)
    then show ?thesis by blast
  next
    case None
    with Cons.prems have "match_issue cs = Some ds" by simp
    with Cons.IH obtain pre rest where r: "cs = pre @ CHR ''#'' # ds @ rest" "ds \<noteq> []"
        "\<forall>c\<in>set ds. is_digit c" "\<forall>d r. rest = d # r \<longrightarrow> \<not> is_digit d"
        "match_issue (pre @ ''#'') = None" by blast
    have "issue_at (c # pre @ ''#'') = None"
      unfolding issue_at_None
    proof (intro allI impI)
      fix d r'
      assume e: "c # pre @ ''#'' = CHR ''#'' # d # r'"
      then have "c # cs = CHR ''#'' # d # (r' @ ds @ rest)" using r(1) by simp
      with None show "\<not> is_digit d" unfolding issue_at_None by blast
    qed
    with r(5) have "match_issue ((c # pre) @ ''#'') = None" by simp
    moreover have "c # cs = (c # pre) @ CHR ''#'' # ds @ rest" using r(1) by simp
    ultimately show ?thesis using r(2,3,4) by blast
  qed
qed

text \<open>
  The pull-request pattern at the head of a string: the host, two path segments without a
  slash, \<^verbatim>\<open>/pull/\<close> and the longest run of digits.
\<close>

lemma pr_at_Some:
  "(pr_at s = Some ds) =
     (\<exists>ow rp rest. s = ''https://github.com/'' @ ow @ ''/'' @ rp @ ''/pull/'' @ ds @ rest
        \<and> ow \<noteq> [] \<and> CHR ''/'' \<notin> set ow \<and> rp \<noteq> [] \<and> CHR ''/'' \<notin> set rp
        \<and> ds \<noteq> [] \<and> (\<forall>c\<in>set ds. is_digit c) \<and> (\<forall>d r. rest = d # r \<longrightarrow> \<not> is_digit d))"
proof
  assume "pr_at s = Some ds"
  then obtain r1 r2 r3 where
      s: "s = ''https://github.com/'' @ r1"
      and o: "takeWhile (\<lambda>c. c \<noteq> CHR ''/'') r1 \<noteq> []"
      and r2: "dropWhile (\<lambda>c. c \<noteq> CHR ''/'') r1 = ''/'' @ r2"
      and p: "takeWhile (\<lambda>c. c \<noteq> CHR ''/'') r2 \<noteq> []"
      and r3: "dropWhile (\<lambda>c. c \<noteq> CHR ''/'') r2 = ''/pull/'' @ r3"
      and d: "takeWhile is_digit r3 \<noteq> []" "ds = takeWhile is_digit r3"
    unfolding pr_at_def
    by (auto simp only: strip_prefix_Some split: option.splits if_splits)
  let ?ow = "takeWhile (\<lambda>c. c \<noteq> CHR ''/'') r1"
  let ?rp = "takeWhile (\<lambda>c. c \<noteq> CHR ''/'') r2"
  let ?rest = "dropWhile is_digit r3"
  have "r1 = ?ow @ ''/'' @ r2" using r2 takeWhile_dropWhile_id [of "\<lambda>c. c \<noteq> CHR ''/''" r1] by simp
  moreover have "r2 = ?rp @ ''/pull/'' @ r3"
    using r3 takeWhile_dropWhile_id [of "\<lambda>c. c \<noteq> CHR ''/''" r2] by simp
  moreover have "r3 = ds @ ?rest" using d(2) by simp
  ultimately have e: "s = ''https://github.com/'' @ ?ow @ ''/'' @ ?rp @ ''/pull/'' @ ds @ ?rest"
    using s by simp
  have "CHR ''/'' \<notin> set ?ow" "CHR ''/'' \<notin> set ?rp" by (auto dest: set_takeWhileD)
  moreover have "\<forall>c\<in>set ds. is_digit c" using d(2) by (auto dest: set_takeWhileD)
  moreover have "\<forall>d r'. ?rest = d # r' \<longrightarrow> \<not> is_digit d"
    by (metis hd_dropWhile list.sel(1) list.distinct(1))
  ultimately show "\<exists>ow rp rest. s = ''https://github.com/'' @ ow @ ''/'' @ rp @ ''/pull/'' @ ds @ rest
        \<and> ow \<noteq> [] \<and> CHR ''/'' \<notin> set ow \<and> rp \<noteq> [] \<and> CHR ''/'' \<notin> set rp
        \<and> ds \<noteq> [] \<and> (\<forall>c\<in>set ds. is_digit c) \<and> (\<forall>d r. rest = d # r \<longrightarrow> \<not> is_digit d)"
    using e o p d by blast
next
  assume "\<exists>ow rp rest. s = ''https://github.com/'' @ ow @ ''/'' @ rp @ ''/pull/'' @ ds @ rest
        \<and> ow \<noteq> [] \<and> CHR ''/'' \<notin> set ow \<and> rp \<noteq> [] \<and> CHR ''/'' \<notin> set rp
        \<and> ds \<noteq> [] \<and> (\<forall>c\<in>set ds. is_digit c) \<and> (\<forall>d r. rest = d # r \<longrightarrow> \<not> is_digit d)"
  then obtain ow rp rest where
      s: "s = ''https://github.com/'' @ ow @ ''/'' @ rp @ ''/pull/'' @ ds @ rest"
      and o: "ow \<noteq> []" "CHR ''/'' \<notin> set ow" and p: "rp \<noteq> []" "CHR ''/'' \<notin> set rp"
      and d: "ds \<noteq> []" "\<forall>c\<in>set ds. is_digit c" "\<forall>d r. rest = d # r \<longrightarrow> \<not> is_digit d"
    by blast
  have t1: "takeWhile (\<lambda>c. c \<noteq> CHR ''/'') (ow @ ''/'' @ rp @ ''/pull/'' @ ds @ rest) = ow"
    and d1: "dropWhile (\<lambda>c. c \<noteq> CHR ''/'') (ow @ ''/'' @ rp @ ''/pull/'' @ ds @ rest)
               = ''/'' @ rp @ ''/pull/'' @ ds @ rest"
    using o(2) by (simp_all add: takeWhile_append dropWhile_append)
  have t2: "takeWhile (\<lambda>c. c \<noteq> CHR ''/'') (rp @ ''/pull/'' @ ds @ rest) = rp"
    and d2: "dropWhile (\<lambda>c. c \<noteq> CHR ''/'') (rp @ ''/pull/'' @ ds @ rest) = ''/pull/'' @ ds @ rest"
    using p(2) by (simp_all add: takeWhile_append dropWhile_append)
  have t3: "takeWhile is_digit (ds @ rest) = ds"
    using d(2,3) by (cases rest) (simp_all add: takeWhile_append)
  have p1: "strip_prefix ''https://github.com/'' s = Some (ow @ ''/'' @ rp @ ''/pull/'' @ ds @ rest)"
    unfolding strip_prefix_Some using s by simp
  have p2: "strip_prefix ''/'' (''/'' @ rp @ ''/pull/'' @ ds @ rest)
              = Some (rp @ ''/pull/'' @ ds @ rest)"
    unfolding strip_prefix_Some by simp
  have p3: "strip_prefix ''/pull/'' (''/pull/'' @ ds @ rest) = Some (ds @ rest)"
    unfolding strip_prefix_Some by simp
  show "pr_at s = Some ds"
    unfolding pr_at_def p1 using o(1) p(1) d(1)
    by (simp only: option.case t1 d1 p2 t2 d2 p3 t3 if_False)
qed

text \<open>\<^verbatim>\<open>match\<close> takes the leftmost place where the pattern matches.\<close>

lemma match_pr_None: "(match_pr s = None) = (\<forall>pre t. s = pre @ t \<longrightarrow> pr_at t = None)"
proof (induction s)
  case Nil
  then show ?case by (simp add: pr_at_def strip_prefix_def)
next
  case (Cons c cs)
  show ?case
  proof
    assume "match_pr (c # cs) = None"
    then have a: "pr_at (c # cs) = None" and b: "match_pr cs = None"
      by (auto split: option.splits)
    show "\<forall>pre t. c # cs = pre @ t \<longrightarrow> pr_at t = None"
    proof (intro allI impI)
      fix pre t
      assume e: "c # cs = pre @ t"
      show "pr_at t = None"
      proof (cases pre)
        case Nil
        with e a show ?thesis by simp
      next
        case (Cons p ps)
        with e have "cs = ps @ t" by simp
        with b Cons.IH show ?thesis by blast
      qed
    qed
  next
    assume h: "\<forall>pre t. c # cs = pre @ t \<longrightarrow> pr_at t = None"
    then have a: "pr_at (c # cs) = None" by (metis append_Nil)
    have "\<forall>pre t. cs = pre @ t \<longrightarrow> pr_at t = None"
      using h by (metis append_Cons)
    with Cons.IH have "match_pr cs = None" by blast
    with a show "match_pr (c # cs) = None" by simp
  qed
qed

lemma match_pr_Some:
  "match_pr s = Some ds \<Longrightarrow>
     \<exists>pre t. s = pre @ t \<and> pr_at t = Some ds
        \<and> (\<forall>pre' t'. s = pre' @ t' \<and> length pre' < length pre \<longrightarrow> pr_at t' = None)"
proof (induction s)
  case Nil
  then show ?case by simp
next
  case (Cons c cs)
  show ?case
  proof (cases "pr_at (c # cs)")
    case (Some ds')
    with Cons.prems have "c # cs = [] @ (c # cs) \<and> pr_at (c # cs) = Some ds
        \<and> (\<forall>pre' t'. c # cs = pre' @ t' \<and> length pre' < length ([]::string)
               \<longrightarrow> pr_at t' = None)"
      by simp
    then show ?thesis by blast
  next
    case None
    with Cons.prems have "match_pr cs = Some ds" by simp
    with Cons.IH obtain pre t where r: "cs = pre @ t" "pr_at t = Some ds"
        "\<forall>pre' t'. cs = pre' @ t' \<and> length pre' < length pre \<longrightarrow> pr_at t' = None" by blast
    have "\<forall>pre' t'. c # cs = pre' @ t' \<and> length pre' < length (c # pre) \<longrightarrow> pr_at t' = None"
    proof (intro allI impI)
      fix pre' t'
      assume e: "c # cs = pre' @ t' \<and> length pre' < length (c # pre)"
      show "pr_at t' = None"
      proof (cases pre')
        case Nil
        with e None show ?thesis by simp
      next
        case (Cons p ps)
        with e have "cs = ps @ t'" "length ps < length pre" by simp_all
        with r(3) show ?thesis by blast
      qed
    qed
    moreover have "c # cs = (c # pre) @ t" using r(1) by simp
    ultimately show ?thesis using r(2) by blast
  qed
qed

section \<open>Claims about resuming and about terminal loops\<close>

text \<open>
  C1, as the code has it. When approve (its merge succeeding, or no pull request on record)
  or skip resumes a loop that waits for approval, and the set-up of the new driver
  invocation succeeds on a budget of at least one iteration, the invocation drives
  iterations from 1 up to \<open>iteration_max\<close>: it resolves having spawned at least one and at
  most \<open>iteration_max\<close> processes, and the \<open>iteration_current\<close> it leaves is the number of
  processes of this invocation, whatever the counter was at the time of the resume.
\<close>

theorem resume_restarts_counter:
  assumes "getLoop w lid = Some l" and "status l = Waiting_approval"
    and "getRepo env (repo_owner l) (repo_name l) = Some rc"
    and "getFactoryKey env (started_by l) = Some key" and "key \<noteq> []"
    and "ensureWorkspace env (path_join env WORKSPACE_DIR (repo_owner l @ ''-'' @ repo_name l))
           (repo_owner l) (repo_name l) (default_branch rc) = Inr ()"
    and "1 \<le> iteration_max l"
  shows "(\<exists>w' l' evs. skipAndContinue env lid w = (None, w')
            \<and> getLoop w' lid = Some l' \<and> events w' = events w @ evs
            \<and> iteration_current l' = int (spawns evs)
            \<and> 1 \<le> iteration_current l' \<and> iteration_current l' \<le> iteration_max l)
       \<and> (current_pr l = None \<or> current_pr l = Some 0
             \<or> mergePR env (repo_owner l) (repo_name l) (or_zero (current_pr l)) \<longrightarrow>
          (\<exists>w' l' evs. approveAndContinue env lid w = (None, w')
            \<and> getLoop w' lid = Some l' \<and> events w' = events w @ evs
            \<and> iteration_current l' = int (spawns evs)
            \<and> 1 \<le> iteration_current l' \<and> iteration_current l' \<le> iteration_max l))"
proof (intro conjI impI)
  let ?l2 = "l\<lparr>status := Running, current_pr := None, current_issue := None\<rparr>"
  have cfg: "getRepo env (repo_owner ?l2) (repo_name ?l2) = Some rc"
      "getFactoryKey env (started_by ?l2) = Some key"
      "ensureWorkspace env (path_join env WORKSPACE_DIR (repo_owner ?l2 @ ''-'' @ repo_name ?l2))
           (repo_owner ?l2) (repo_name ?l2) (default_branch rc) = Inr ()"
      "1 \<le> iteration_max ?l2"
    using assms(3,4,6,7) by simp_all
  {
    fix w2 m
    assume w2: "getLoop w2 lid = Some ?l2" "events w2 = events w @ m" "spawns m = 0"
    from startLoop_counter [OF w2(1) cfg(1) cfg(2) assms(5) cfg(3) cfg(4), of no_callbacks]
    obtain w' l' evs where r: "startLoop env no_callbacks lid w2 = (None, w')"
        "getLoop w' lid = Some l'" "events w' = events w2 @ evs"
        "iteration_current l' = int (spawns evs)"
        "1 \<le> iteration_current l'" "iteration_current l' \<le> iteration_max ?l2"
      by (elim exE conjE) (rule that; assumption)
    have "events w' = events w @ (m @ evs)" using r(3) w2(2) by simp
    moreover have "spawns (m @ evs) = spawns evs" using w2(3) by (simp add: spawns_simps)
    ultimately have "\<exists>w' l' evs. snd (startLoop env no_callbacks lid w2) = w'
            \<and> getLoop w' lid = Some l' \<and> events w' = events w @ evs
            \<and> iteration_current l' = int (spawns evs)
            \<and> 1 \<le> iteration_current l' \<and> iteration_current l' \<le> iteration_max l"
      using r by (intro exI [of _ w'] exI [of _ l'] exI [of _ "m @ evs"]) simp
  }
  note resumed = this
  from skip_success [OF assms(1,2), of env]
  obtain w2 where s: "skipAndContinue env lid w = (None, snd (startLoop env no_callbacks lid w2))"
      "getLoop w2 lid = Some ?l2" "events w2 = events w"
    by (elim exE conjE) (rule that; assumption)
  from resumed [OF s(2), of "[]"] s(3)
  show "\<exists>w' l' evs. skipAndContinue env lid w = (None, w')
            \<and> getLoop w' lid = Some l' \<and> events w' = events w @ evs
            \<and> iteration_current l' = int (spawns evs)
            \<and> 1 \<le> iteration_current l' \<and> iteration_current l' \<le> iteration_max l"
    unfolding s(1) by (simp add: spawns_simps)
  assume "current_pr l = None \<or> current_pr l = Some 0
             \<or> mergePR env (repo_owner l) (repo_name l) (or_zero (current_pr l))"
  from approve_success [OF assms(1,2) this]
  obtain w2 m where a:
      "approveAndContinue env lid w = (None, snd (startLoop env no_callbacks lid w2))"
      "getLoop w2 lid = Some ?l2" "events w2 = events w @ m" "spawns m = 0"
    by (elim exE conjE) (rule that; assumption)
  from resumed [OF a(2,3,4)]
  show "\<exists>w' l' evs. approveAndContinue env lid w = (None, w')
            \<and> getLoop w' lid = Some l' \<and> events w' = events w @ evs
            \<and> iteration_current l' = int (spawns evs)
            \<and> 1 \<le> iteration_current l' \<and> iteration_current l' \<le> iteration_max l"
    unfolding a(1) by simp
qed

theorem resume_restarts_counter_witness:
  "getLoop (ex_world (ex_loop\<lparr>status := Waiting_approval, current_pr := Some 42,
                iteration_current := 2\<rparr>)) ''L''
     = Some (ex_loop\<lparr>status := Waiting_approval, current_pr := Some 42, iteration_current := 2\<rparr>)
   \<and> status (ex_loop\<lparr>status := Waiting_approval, current_pr := Some 42, iteration_current := 2\<rparr>)
       = Waiting_approval
   \<and> (1::int) \<le> iteration_max (ex_loop\<lparr>status := Waiting_approval, current_pr := Some 42,
                                   iteration_current := 2\<rparr>)
   \<and> mergePR (ex_env (\<lambda>i. Closed (Some 0) ''nothing yet'')) ''o'' ''r'' 42
   \<and> (\<exists>w' l' evs. skipAndContinue (ex_env (\<lambda>i. Closed (Some 0) ''nothing yet'')) ''L''
          (ex_world (ex_loop\<lparr>status := Waiting_approval, current_pr := Some 42,
                iteration_current := 2\<rparr>)) = (None, w')
        \<and> getLoop w' ''L'' = Some l' \<and> events w' = evs
        \<and> iteration_current l' = int (spawns evs)
        \<and> 1 \<le> iteration_current l' \<and> iteration_current l' \<le> 3)
   \<and> (\<exists>w' l' evs. approveAndContinue (ex_env (\<lambda>i. Closed (Some 0) ''nothing yet'')) ''L''
          (ex_world (ex_loop\<lparr>status := Waiting_approval, current_pr := Some 42,
                iteration_current := 2\<rparr>)) = (None, w')
        \<and> getLoop w' ''L'' = Some l' \<and> events w' = evs
        \<and> iteration_current l' = int (spawns evs)
        \<and> 1 \<le> iteration_current l' \<and> iteration_current l' \<le> 3)"
proof -
  let ?env = "ex_env (\<lambda>i. Closed (Some 0) ''nothing yet'')"
  let ?l = "ex_loop\<lparr>status := Waiting_approval, current_pr := Some 42, iteration_current := 2\<rparr>"
  let ?rc = "\<lparr>owner = ''o'', name = ''r'', default_branch = ''main'', prompt_path = ''prompt.md''\<rparr>"
  have h1: "getLoop (ex_world ?l) ''L'' = Some ?l" by (simp add: ex_world_def getLoop_def)
  have h2: "status ?l = Waiting_approval" by simp
  have h3: "getRepo ?env (repo_owner ?l) (repo_name ?l) = Some ?rc"
    by (simp add: getRepo_def ex_defs)
  have h4: "getFactoryKey ?env (started_by ?l) = Some ''fac_key''"
    by (simp add: getFactoryKey_def ex_defs)
  have h5: "''fac_key'' \<noteq> []" by simp
  have h6: "ensureWorkspace ?env (path_join ?env WORKSPACE_DIR (repo_owner ?l @ ''-'' @ repo_name ?l))
           (repo_owner ?l) (repo_name ?l) (default_branch ?rc) = Inr ()"
    by (simp add: ensureWorkspace_def execCommand_def ex_defs)
  have h7: "(1::int) \<le> iteration_max ?l" by (simp add: ex_loop_def)
  have h8: "mergePR ?env ''o'' ''r'' 42" by (simp add: ex_env_def)
  have h9: "current_pr ?l = None \<or> current_pr ?l = Some 0
             \<or> mergePR ?env (repo_owner ?l) (repo_name ?l) (or_zero (current_pr ?l))"
    by (simp add: ex_defs or_zero_def)
  have e0: "events (ex_world ?l) = []" and m: "iteration_max ?l = 3"
    by (simp_all add: ex_defs)
  from resume_restarts_counter [OF h1 h2 h3 h4 h5 h6 h7] h9
  have "(\<exists>w' l' evs. skipAndContinue ?env ''L'' (ex_world ?l) = (None, w')
            \<and> getLoop w' ''L'' = Some l' \<and> events w' = events (ex_world ?l) @ evs
            \<and> iteration_current l' = int (spawns evs)
            \<and> 1 \<le> iteration_current l' \<and> iteration_current l' \<le> iteration_max ?l)"
    and "(\<exists>w' l' evs. approveAndContinue ?env ''L'' (ex_world ?l) = (None, w')
            \<and> getLoop w' ''L'' = Some l' \<and> events w' = events (ex_world ?l) @ evs
            \<and> iteration_current l' = int (spawns evs)
            \<and> 1 \<le> iteration_current l' \<and> iteration_current l' \<le> iteration_max ?l)"
    by blast+
  then show ?thesis unfolding e0 m using h1 h2 h7 h8 by simp
qed

text \<open>
  C1 as stated fails. A loop in approval mode that has run two of its three iterations and
  waits on pull request 42 is approved; the resumed driver logs \<^verbatim>\<open>Starting iteration 1/3\<close> and
  the counter it persists is 1, not 3.
\<close>

theorem resume_counter_counterexample:
  "map_option iteration_current
     (getLoop (ex_world (ex_loop\<lparr>status := Waiting_approval, mode := Approval,
                  current_pr := Some 42, current_issue := Some 7, iteration_current := 2\<rparr>)) ''L'')
     = Some 2
   \<and> map_option iteration_current
       (getLoop (snd (approveAndContinue
          (ex_env (\<lambda>i. Closed (Some 0) ''https://github.com/o/r/pull/43 for #8'')) ''L''
          (ex_world (ex_loop\<lparr>status := Waiting_approval, mode := Approval,
                  current_pr := Some 42, current_issue := Some 7, iteration_current := 2\<rparr>))))
          ''L'')
     = Some 1
   \<and> loop_logs (snd (approveAndContinue
          (ex_env (\<lambda>i. Closed (Some 0) ''https://github.com/o/r/pull/43 for #8'')) ''L''
          (ex_world (ex_loop\<lparr>status := Waiting_approval, mode := Approval,
                  current_pr := Some 42, current_issue := Some 7, iteration_current := 2\<rparr>))))
     = [LogEntry ''L'' Info ''Merged PR #42'', LogEntry ''L'' Info ''Loop started'',
        LogEntry ''L'' Info ''Starting iteration 1/3'',
        LogEntry ''L'' Info ''Waiting for approval on PR #43'']"
  by (simp add: approveAndContinue_def truthy_def or_zero_def show_opt_def show_int_def
        setup_defs ex_defs regex_defs driver_defs
        run_iterations.simps number_defs)

text \<open>
  C2, as the code has it. For a loop whose status is complete, error or stopped, approve
  and skip fail and leave the state as it is, and so does stop when no process is registered
  for the loop (it returns false). Stop with a registered process does not look at the status:
  it returns true and the status is stopped afterwards. No statement is made about a driver
  invocation.
\<close>

theorem terminal_guarded:
  assumes "getLoop w lid = Some l"
    and "status l = Complete \<or> status l = Error \<or> status l = Stopped"
  shows "approveAndContinue env lid w = (Some ''Loop is not waiting for approval'', w)
       \<and> skipAndContinue env lid w = (Some ''Loop is not waiting for approval'', w)
       \<and> (activeProcesses w lid = None \<longrightarrow> stopLoopProcess env lid w = (False, w))
       \<and> (activeProcesses w lid \<noteq> None \<longrightarrow>
            fst (stopLoopProcess env lid w)
            \<and> map_option status (getLoop (snd (stopLoopProcess env lid w)) lid) = Some Stopped)"
  using assms
  by (auto simp: approveAndContinue_def skipAndContinue_def stopLoopProcess_def ACTIVE_def
        stopLoop_def updateLoop_def getLoop_def)

theorem terminal_guarded_witness:
  "getLoop (ex_world (ex_loop\<lparr>status := Error, current_pr := Some 5\<rparr>)) ''L''
     = Some (ex_loop\<lparr>status := Error, current_pr := Some 5\<rparr>)
   \<and> status (ex_loop\<lparr>status := Error, current_pr := Some 5\<rparr>) = Error
   \<and> activeProcesses (ex_world (ex_loop\<lparr>status := Error, current_pr := Some 5\<rparr>)) ''L'' = None
   \<and> approveAndContinue (ex_env (\<lambda>i. Closed (Some 0) [])) ''L''
        (ex_world (ex_loop\<lparr>status := Error, current_pr := Some 5\<rparr>))
      = (Some ''Loop is not waiting for approval'',
         ex_world (ex_loop\<lparr>status := Error, current_pr := Some 5\<rparr>))
   \<and> skipAndContinue (ex_env (\<lambda>i. Closed (Some 0) [])) ''L''
        (ex_world (ex_loop\<lparr>status := Error, current_pr := Some 5\<rparr>))
      = (Some ''Loop is not waiting for approval'',
         ex_world (ex_loop\<lparr>status := Error, current_pr := Some 5\<rparr>))
   \<and> stopLoopProcess (ex_env (\<lambda>i. Closed (Some 0) [])) ''L''
        (ex_world (ex_loop\<lparr>status := Error, current_pr := Some 5\<rparr>))
      = (False, ex_world (ex_loop\<lparr>status := Error, current_pr := Some 5\<rparr>))
   \<and> getLoop ((ex_world (ex_loop\<lparr>status := Complete\<rparr>))\<lparr>activeProcesses := [''L'' \<mapsto> 3]\<rparr>) ''L''
       = Some (ex_loop\<lparr>status := Complete\<rparr>)
   \<and> activeProcesses ((ex_world (ex_loop\<lparr>status := Complete\<rparr>))\<lparr>activeProcesses := [''L'' \<mapsto> 3]\<rparr>)
         ''L'' \<noteq> None
   \<and> fst (stopLoopProcess (ex_env (\<lambda>i. Closed (Some 0) [])) ''L''
           ((ex_world (ex_loop\<lparr>status := Complete\<rparr>))\<lparr>activeProcesses := [''L'' \<mapsto> 3]\<rparr>))
   \<and> map_option status
         (getLoop (snd (stopLoopProcess (ex_env (\<lambda>i. Closed (Some 0) [])) ''L''
           ((ex_world (ex_loop\<lparr>status := Complete\<rparr>))\<lparr>activeProcesses := [''L'' \<mapsto> 3]\<rparr>)))
            ''L'') = Some Stopped"
proof -
  let ?wr = "(ex_world (ex_loop\<lparr>status := Complete\<rparr>))\<lparr>activeProcesses := [''L'' \<mapsto> 3]\<rparr>"
  have r1: "getLoop ?wr ''L'' = Some (ex_loop\<lparr>status := Complete\<rparr>)"
    by (simp add: ex_world_def getLoop_def)
  have r2: "status (ex_loop\<lparr>status := Complete\<rparr>) = Complete
            \<or> status (ex_loop\<lparr>status := Complete\<rparr>) = Error
            \<or> status (ex_loop\<lparr>status := Complete\<rparr>) = Stopped" by simp
  have r3: "activeProcesses ?wr ''L'' \<noteq> None" by (simp add: ex_world_def)
  from terminal_guarded [OF r1 r2, of "ex_env (\<lambda>i. Closed (Some 0) [])"] r3
  have r4: "fst (stopLoopProcess (ex_env (\<lambda>i. Closed (Some 0) [])) ''L'' ?wr)
     \<and> map_option status
         (getLoop (snd (stopLoopProcess (ex_env (\<lambda>i. Closed (Some 0) [])) ''L'' ?wr)) ''L'')
        = Some Stopped" by blast
  let ?l = "ex_loop\<lparr>status := Error, current_pr := Some 5\<rparr>"
  have h1: "getLoop (ex_world ?l) ''L'' = Some ?l" by (simp add: ex_world_def getLoop_def)
  have h2: "status ?l = Complete \<or> status ?l = Error \<or> status ?l = Stopped" by simp
  have h3: "activeProcesses (ex_world ?l) ''L'' = None" by (simp add: ex_world_def)
  from terminal_guarded [OF h1 h2, of "ex_env (\<lambda>i. Closed (Some 0) [])"] h1 h3 r1 r3 r4
  show ?thesis by simp
qed

text \<open>
  C2 as stated fails for a driver invocation. Started on a stopped loop in approval mode
  whose agent reports pull request 42, the driver marks the loop running, runs iteration 1
  and leaves the loop waiting for approval with a new counter, pull request, issue and
  start time.
\<close>

theorem terminal_restart_counterexample:
  "map_option status (getLoop (ex_world (ex_loop\<lparr>status := Stopped, mode := Approval\<rparr>)) ''L'')
     = Some Stopped
   \<and> fst (startLoop (ex_env (\<lambda>i. Closed (Some 0) ''https://github.com/o/r/pull/42 for #7''))
            no_callbacks ''L'' (ex_world (ex_loop\<lparr>status := Stopped, mode := Approval\<rparr>))) = None
   \<and> getLoop (snd (startLoop (ex_env (\<lambda>i. Closed (Some 0) ''https://github.com/o/r/pull/42 for #7''))
            no_callbacks ''L'' (ex_world (ex_loop\<lparr>status := Stopped, mode := Approval\<rparr>)))) ''L''
     = Some (ex_loop\<lparr>status := Waiting_approval, mode := Approval, current_issue := Some 7,
               current_pr := Some 42, iteration_current := 1, started_at := Some ''T1''\<rparr>)"
  by (simp add: setup_defs ex_defs regex_defs driver_defs run_iterations.simps number_defs)

section \<open>Claims about the classification of an iteration's output\<close>






text \<open>
  C5. At an iteration boundary (the counter \<open>i\<close> is within the budget) the driver reads the
  row afresh. If the status it reads is stopped, paused or waiting_approval, the invocation
  ends without an error and leaves the store as it was but for one log line: the status and
  \<open>iteration_current\<close> are untouched, no process is spawned and no hook is called.
\<close>

theorem boundary_halts:
  assumes "i \<le> iteration_max loop"
    and "getLoop w lid = Some cur"
    and "status cur = Stopped \<or> status cur = Paused \<or> status cur = Waiting_approval"
  shows "\<exists>msg. run_iterations env cb lid loop wd k pp i w
           = (None, w\<lparr>loop_logs := loop_logs w @ [LogEntry lid Info msg]\<rparr>)"
  using assms
  by (subst run_iterations.simps)
     (auto simp: iteration_def after_loop_def logLoop_def getLoop_def)

theorem boundary_halts_witness:
  "(1::int) \<le> iteration_max ex_loop
   \<and> getLoop (ex_world (ex_loop\<lparr>status := Stopped\<rparr>)) ''L'' = Some (ex_loop\<lparr>status := Stopped\<rparr>)
   \<and> (status (ex_loop\<lparr>status := Stopped\<rparr>) = Stopped
        \<or> status (ex_loop\<lparr>status := Stopped\<rparr>) = Paused
        \<or> status (ex_loop\<lparr>status := Stopped\<rparr>) = Waiting_approval)
   \<and> (\<exists>msg. run_iterations (ex_env (\<lambda>i. Closed (Some 0) [])) no_callbacks ''L'' ex_loop
                 ''wd'' ''key'' ''prompt.md'' 1 (ex_world (ex_loop\<lparr>status := Stopped\<rparr>))
           = (None, (ex_world (ex_loop\<lparr>status := Stopped\<rparr>))
                \<lparr>loop_logs := loop_logs (ex_world (ex_loop\<lparr>status := Stopped\<rparr>))
                                @ [LogEntry ''L'' Info msg]\<rparr>))"
proof -
  have h1: "(1::int) \<le> iteration_max ex_loop" by (simp add: ex_loop_def)
  have h2: "getLoop (ex_world (ex_loop\<lparr>status := Stopped\<rparr>)) ''L''
              = Some (ex_loop\<lparr>status := Stopped\<rparr>)"
    by (simp add: getLoop_def ex_world_def)
  have h3: "status (ex_loop\<lparr>status := Stopped\<rparr>) = Stopped
        \<or> status (ex_loop\<lparr>status := Stopped\<rparr>) = Paused
        \<or> status (ex_loop\<lparr>status := Stopped\<rparr>) = Waiting_approval" by simp
  from boundary_halts [OF h1 h2 h3] h1 h2 h3 show ?thesis by blast
qed

text \<open>
  C10. When the output of iteration \<open>i\<close> contains a completion sentinel and also a
  pull-request URL, completion wins: the driver returns with the loop complete, the row's
  \<open>current_pr\<close> and \<open>current_issue\<close> are what they were before the iteration, and neither
  onWaitingApproval nor onTaskComplete is among the hooks called.
\<close>

theorem completion_precedes_pr:
  assumes "i \<le> iteration_max loop"
    and "getLoop w lid = Some cur"
    and "status cur \<noteq> Stopped" "status cur \<noteq> Paused" "status cur \<noteq> Waiting_approval"
    and "droid env i = Closed code out"
    and "str_includes out ''<done>COMPLETE</done>'' \<or> str_includes out ''<done>NO_TASKS</done>''"
    and "match_pr out = Some ds"
  shows "\<exists>w' l' new. run_iterations env cb lid loop wd k pp i w = (None, w')
           \<and> getLoop w' lid = Some l'
           \<and> status l' = Complete
           \<and> current_pr l' = current_pr cur
           \<and> current_issue l' = current_issue cur
           \<and> events w' = events w @ new
           \<and> (\<forall>l a b. CbWaitingApproval l a b \<notin> set new \<and> CbTaskComplete l a b \<notin> set new)"
  using assms(1-6) sentinel_has_marker [OF assms(7)] assms(7)
  by (subst run_iterations.simps) (simp add: driver_defs)

theorem completion_precedes_pr_witness:
  "(1::int) \<le> iteration_max (ex_loop\<lparr>mode := Approval\<rparr>)
   \<and> getLoop (ex_world (ex_loop\<lparr>status := Running, mode := Approval\<rparr>)) ''L''
       = Some (ex_loop\<lparr>status := Running, mode := Approval\<rparr>)
   \<and> droid (ex_env (\<lambda>i. Closed (Some 0) ''https://github.com/o/r/pull/42 <done>COMPLETE</done>'')) 1
       = Closed (Some 0) ''https://github.com/o/r/pull/42 <done>COMPLETE</done>''
   \<and> str_includes ''https://github.com/o/r/pull/42 <done>COMPLETE</done>'' ''<done>COMPLETE</done>''
   \<and> match_pr ''https://github.com/o/r/pull/42 <done>COMPLETE</done>'' = Some ''42''
   \<and> (\<exists>w' l'. run_iterations
          (ex_env (\<lambda>i. Closed (Some 0) ''https://github.com/o/r/pull/42 <done>COMPLETE</done>''))
          no_callbacks ''L'' (ex_loop\<lparr>mode := Approval\<rparr>) ''wd'' ''key'' ''prompt.md'' 1
          (ex_world (ex_loop\<lparr>status := Running, mode := Approval\<rparr>)) = (None, w')
        \<and> getLoop w' ''L'' = Some l' \<and> status l' = Complete
        \<and> current_pr l' = None \<and> current_issue l' = None)"
proof -
  have h1: "(1::int) \<le> iteration_max (ex_loop\<lparr>mode := Approval\<rparr>)" by (simp add: ex_loop_def)
  have h2: "getLoop (ex_world (ex_loop\<lparr>status := Running, mode := Approval\<rparr>)) ''L''
       = Some (ex_loop\<lparr>status := Running, mode := Approval\<rparr>)"
    by (simp add: getLoop_def ex_world_def)
  have h3: "status (ex_loop\<lparr>status := Running, mode := Approval\<rparr>) \<noteq> Stopped"
           "status (ex_loop\<lparr>status := Running, mode := Approval\<rparr>) \<noteq> Paused"
           "status (ex_loop\<lparr>status := Running, mode := Approval\<rparr>) \<noteq> Waiting_approval"
    by simp_all
  have h4: "droid (ex_env (\<lambda>i. Closed (Some 0) ''https://github.com/o/r/pull/42 <done>COMPLETE</done>'')) 1
       = Closed (Some 0) ''https://github.com/o/r/pull/42 <done>COMPLETE</done>''"
    by (simp add: ex_env_def)
  have h5: "str_includes ''https://github.com/o/r/pull/42 <done>COMPLETE</done>''
              ''<done>COMPLETE</done>''" by simp
  have h6: "str_includes ''https://github.com/o/r/pull/42 <done>COMPLETE</done>''
              ''<done>COMPLETE</done>''
          \<or> str_includes ''https://github.com/o/r/pull/42 <done>COMPLETE</done>''
              ''<done>NO_TASKS</done>''" using h5 by blast
  have h7: "match_pr ''https://github.com/o/r/pull/42 <done>COMPLETE</done>'' = Some ''42''"
    by (simp add: pr_at_def strip_prefix_def is_digit_def)
  have pr0: "current_pr (ex_loop\<lparr>status := Running, mode := Approval\<rparr>) = None"
            "current_issue (ex_loop\<lparr>status := Running, mode := Approval\<rparr>) = None"
    by (simp_all add: ex_loop_def)
  from completion_precedes_pr [OF h1 h2 h3 h4 h6 h7, of no_callbacks "''wd''" "''key''"
         "''prompt.md''"]
  obtain w' l' where "run_iterations
          (ex_env (\<lambda>i. Closed (Some 0) ''https://github.com/o/r/pull/42 <done>COMPLETE</done>''))
          no_callbacks ''L'' (ex_loop\<lparr>mode := Approval\<rparr>) ''wd'' ''key'' ''prompt.md'' 1
          (ex_world (ex_loop\<lparr>status := Running, mode := Approval\<rparr>)) = (None, w')"
      "getLoop w' ''L'' = Some l'" "status l' = Complete"
      "current_pr l' = None" "current_issue l' = None"
    unfolding pr0 by blast
  with h1 h2 h4 h5 h7 show ?thesis by blast
qed

section \<open>Claims about approve, skip and stop\<close>



text \<open>
  C9, as the code has it. Stop never faults. With a process registered for the loop it
  signals the process, removes the registry entry, sets the status to stopped whatever it
  was, and returns true. With no process registered it sets the status to stopped and
  returns true exactly when the loop exists with a status in pending, running, paused or
  waiting_approval; otherwise it returns false and changes nothing. A stop that follows
  another stop for the same loop always returns false and changes nothing.
\<close>

theorem stop_behaviour:
  "(activeProcesses w lid = Some p \<longrightarrow>
      stopLoopProcess env lid w =
        (True, w\<lparr>loops := (case loops w lid of
                             None \<Rightarrow> loops w
                           | Some l \<Rightarrow> (loops w)(lid \<mapsto> l\<lparr>status := Stopped,
                                           completed_at := Some (now env)\<rparr>)),
                  activeProcesses := (activeProcesses w)(lid := None),
                  events := events w @ [ProcKilled p]\<rparr>))
   \<and> (activeProcesses w lid = None \<and> getLoop w lid = Some l
        \<and> status l \<in> {Pending, Running, Paused, Waiting_approval} \<longrightarrow>
      stopLoopProcess env lid w =
        (True, w\<lparr>loops := (loops w)(lid \<mapsto> l\<lparr>status := Stopped,
                                                completed_at := Some (now env)\<rparr>)\<rparr>))
   \<and> (activeProcesses w lid = None \<and> getLoop w lid = Some l
        \<and> status l \<notin> {Pending, Running, Paused, Waiting_approval} \<longrightarrow>
      stopLoopProcess env lid w = (False, w))
   \<and> (activeProcesses w lid = None \<and> getLoop w lid = None \<longrightarrow>
      stopLoopProcess env lid w = (False, w))
   \<and> stopLoopProcess env' lid (snd (stopLoopProcess env lid w))
        = (False, snd (stopLoopProcess env lid w))"
  (is "?A \<and> ?B \<and> ?C \<and> ?D \<and> ?E")
proof (intro conjI)
  show ?A
    by (auto simp: stopLoopProcess_def stopLoop_def updateLoop_def split: option.splits)
  show ?B
    by (auto simp: stopLoopProcess_def stopLoop_def updateLoop_def getLoop_def ACTIVE_def)
  show ?C
    by (auto simp: stopLoopProcess_def getLoop_def ACTIVE_def)
  show ?D
    by (simp add: stopLoopProcess_def)
  show ?E
    by (auto simp: stopLoopProcess_def stopLoop_def updateLoop_def getLoop_def ACTIVE_def
             split: option.splits)
qed

theorem stop_behaviour_witness:
  "activeProcesses ((ex_world (ex_loop\<lparr>status := Running\<rparr>))\<lparr>activeProcesses := [''L'' \<mapsto> 7]\<rparr>) ''L''
     = Some 7
   \<and> stopLoopProcess (ex_env (\<lambda>i. Closed (Some 0) [])) ''L''
        ((ex_world (ex_loop\<lparr>status := Running\<rparr>))\<lparr>activeProcesses := [''L'' \<mapsto> 7]\<rparr>)
      = (True, \<lparr>loops = [''L'' \<mapsto> ex_loop\<lparr>status := Stopped, completed_at := Some ''T1''\<rparr>],
                loop_logs = [], activeProcesses = Map.empty, events = [ProcKilled 7]\<rparr>)
   \<and> activeProcesses (ex_world (ex_loop\<lparr>status := Waiting_approval\<rparr>)) ''L'' = None
   \<and> getLoop (ex_world (ex_loop\<lparr>status := Waiting_approval\<rparr>)) ''L''
       = Some (ex_loop\<lparr>status := Waiting_approval\<rparr>)
   \<and> status (ex_loop\<lparr>status := Waiting_approval\<rparr>) \<in> {Pending, Running, Paused, Waiting_approval}
   \<and> stopLoopProcess (ex_env (\<lambda>i. Closed (Some 0) [])) ''L''
        (ex_world (ex_loop\<lparr>status := Waiting_approval\<rparr>))
      = (True, ex_world (ex_loop\<lparr>status := Stopped, completed_at := Some ''T1''\<rparr>))
   \<and> getLoop (ex_world (ex_loop\<lparr>status := Error\<rparr>)) ''L'' = Some (ex_loop\<lparr>status := Error\<rparr>)
   \<and> status (ex_loop\<lparr>status := Error\<rparr>) \<notin> {Pending, Running, Paused, Waiting_approval}
   \<and> stopLoopProcess (ex_env (\<lambda>i. Closed (Some 0) [])) ''L'' (ex_world (ex_loop\<lparr>status := Error\<rparr>))
      = (False, ex_world (ex_loop\<lparr>status := Error\<rparr>))
   \<and> getLoop (ex_world ex_loop) ''M'' = None
   \<and> stopLoopProcess (ex_env (\<lambda>i. Closed (Some 0) [])) ''M'' (ex_world ex_loop)
      = (False, ex_world ex_loop)
   \<and> fst (stopLoopProcess (ex_env (\<lambda>i. Closed (Some 0) [])) ''L''
        (snd (stopLoopProcess (ex_env (\<lambda>i. Closed (Some 0) [])) ''L''
           ((ex_world (ex_loop\<lparr>status := Running\<rparr>))\<lparr>activeProcesses := [''L'' \<mapsto> 7]\<rparr>)))) = False"
proof -
  let ?env = "ex_env (\<lambda>i. Closed (Some 0) [])"
  let ?wA = "(ex_world (ex_loop\<lparr>status := Running\<rparr>))\<lparr>activeProcesses := [''L'' \<mapsto> 7]\<rparr>"
  let ?wB = "ex_world (ex_loop\<lparr>status := Waiting_approval\<rparr>)"
  let ?wC = "ex_world (ex_loop\<lparr>status := Error\<rparr>)"
  have a: "activeProcesses ?wA ''L'' = Some 7" by (simp add: ex_world_def)
  have b: "activeProcesses ?wB ''L'' = None"
      "getLoop ?wB ''L'' = Some (ex_loop\<lparr>status := Waiting_approval\<rparr>)"
      "status (ex_loop\<lparr>status := Waiting_approval\<rparr>) \<in> {Pending, Running, Paused, Waiting_approval}"
    by (simp_all add: ex_world_def getLoop_def)
  have c: "activeProcesses ?wC ''L'' = None"
      "getLoop ?wC ''L'' = Some (ex_loop\<lparr>status := Error\<rparr>)"
      "status (ex_loop\<lparr>status := Error\<rparr>) \<notin> {Pending, Running, Paused, Waiting_approval}"
    by (simp_all add: ex_world_def getLoop_def)
  have d: "activeProcesses (ex_world ex_loop) ''M'' = None" "getLoop (ex_world ex_loop) ''M'' = None"
    by (simp_all add: ex_world_def getLoop_def)
  have ra: "stopLoopProcess ?env ''L'' ?wA
      = (True, \<lparr>loops = [''L'' \<mapsto> ex_loop\<lparr>status := Stopped, completed_at := Some ''T1''\<rparr>],
                loop_logs = [], activeProcesses = Map.empty, events = [ProcKilled 7]\<rparr>)"
    using stop_behaviour [of ?wA "''L''" 7 ?env, THEN conjunct1] a
    by (simp add: ex_world_def ex_env_def)
  have rb: "stopLoopProcess ?env ''L'' ?wB
      = (True, ex_world (ex_loop\<lparr>status := Stopped, completed_at := Some ''T1''\<rparr>))"
    using stop_behaviour [of ?wB "''L''" _ ?env "ex_loop\<lparr>status := Waiting_approval\<rparr>",
            THEN conjunct2, THEN conjunct1] b
    by (simp add: ex_world_def ex_env_def)
  have rc: "stopLoopProcess ?env ''L'' ?wC = (False, ?wC)"
    using stop_behaviour [of ?wC "''L''" _ ?env "ex_loop\<lparr>status := Error\<rparr>",
            THEN conjunct2, THEN conjunct2, THEN conjunct1] c
    by simp
  have rd: "stopLoopProcess ?env ''M'' (ex_world ex_loop) = (False, ex_world ex_loop)"
    using stop_behaviour [of "ex_world ex_loop" "''M''" _ ?env,
            THEN conjunct2, THEN conjunct2, THEN conjunct2, THEN conjunct1] d
    by simp
  have re: "fst (stopLoopProcess ?env ''L'' (snd (stopLoopProcess ?env ''L'' ?wA))) = False"
    using stop_behaviour [of ?wA "''L''" _ ?env _ ?env,
            THEN conjunct2, THEN conjunct2, THEN conjunct2, THEN conjunct2]
    by simp
  from a b c d ra rb rc rd re show ?thesis by simp
qed

text \<open>
  C9 as stated fails where it says the status is forced only from the four active statuses:
  with a process registered for a loop whose status is complete, stop returns true and the
  status becomes stopped.
\<close>

theorem stop_registered_counterexample:
  "map_option status
     (getLoop ((ex_world (ex_loop\<lparr>status := Complete\<rparr>))\<lparr>activeProcesses := [''L'' \<mapsto> 7]\<rparr>) ''L'')
     = Some Complete
   \<and> Complete \<notin> {Pending, Running, Paused, Waiting_approval}
   \<and> fst (stopLoopProcess (ex_env (\<lambda>i. Closed (Some 0) [])) ''L''
           ((ex_world (ex_loop\<lparr>status := Complete\<rparr>))\<lparr>activeProcesses := [''L'' \<mapsto> 7]\<rparr>)) = True
   \<and> map_option status
       (getLoop (snd (stopLoopProcess (ex_env (\<lambda>i. Closed (Some 0) [])) ''L''
           ((ex_world (ex_loop\<lparr>status := Complete\<rparr>))\<lparr>activeProcesses := [''L'' \<mapsto> 7]\<rparr>))) ''L'')
     = Some Stopped"
  by (simp add: stopLoopProcess_def stopLoop_def updateLoop_def getLoop_def ex_defs)

section \<open>Claims about failures\<close>

text \<open>
  C7, as the code has it. When the loop is found and configured and the workspace set-up
  fails, the driver invocation rejects with the message of that failure and the state is
  left exactly as it was: the loop keeps its status and is not marked running or error,
  nothing is logged and no hook is called. The failure is that of making the workspaces
  directory, or of the clone chosen because the loop's directory is absent, or else of the
  fetch and hard reset; for a command that exits nonzero (or is killed) the message is
  \<^verbatim>\<open>Command failed:\<close>, the command, a line feed and the command's output.
\<close>

theorem workspace_failure_rejects:
  assumes "getLoop w lid = Some loop"
    and "getRepo env (repo_owner loop) (repo_name loop) = Some rc"
    and "getFactoryKey env (started_by loop) = Some key" and "key \<noteq> []"
    and "dir = path_join env WORKSPACE_DIR (repo_owner loop @ ''-'' @ repo_name loop)"
    and "clone = ''git clone https://github.com/'' @ repo_owner loop @ ''/'' @ repo_name loop
                   @ ''.git '' @ dir"
    and "fetch = ''git fetch origin && git reset --hard origin/'' @ default_branch rc"
  shows "(ensureWorkspace env dir (repo_owner loop) (repo_name loop) (default_branch rc) = Inl e
            \<longrightarrow> startLoop env cb lid w = (Some e, w))
       \<and> (\<not> existsSync env WORKSPACE_DIR \<and> mkdirSync env WORKSPACE_DIR = Some m
            \<longrightarrow> startLoop env cb lid w = (Some m, w))
       \<and> ((existsSync env WORKSPACE_DIR \<or> mkdirSync env WORKSPACE_DIR = None)
            \<and> \<not> existsSync env dir \<and> fst (sh env clone None) \<noteq> Some 0
            \<longrightarrow> startLoop env cb lid w =
                  (Some (''Command failed: '' @ clone @ [CHR 0x0A] @ snd (sh env clone None)), w))
       \<and> ((existsSync env WORKSPACE_DIR \<or> mkdirSync env WORKSPACE_DIR = None)
            \<and> existsSync env dir \<and> fst (sh env fetch (Some dir)) \<noteq> Some 0
            \<longrightarrow> startLoop env cb lid w =
                  (Some (''Command failed: '' @ fetch @ [CHR 0x0A] @ snd (sh env fetch (Some dir))),
                   w))"
  (is "?A \<and> ?B \<and> ?C \<and> ?D")
proof (intro conjI)
  note fails = startLoop_setup_fails [OF assms(1-4), of _ cb, folded assms(5)]
  show ?A using fails by blast
  show ?B
    using fails ensureWorkspace_mkdir_fails [of env m dir "repo_owner loop" "repo_name loop"
                  "default_branch rc"]
    by simp
  show ?C
    using fails ensureWorkspace_clone_fails [of env dir "repo_owner loop" "repo_name loop"
                  "default_branch rc"]
    unfolding assms(6) by simp
  show ?D
    using fails ensureWorkspace_fetch_fails [of env dir "default_branch rc" "repo_owner loop"
                  "repo_name loop"]
    unfolding assms(7) by simp
qed

theorem workspace_failure_rejects_witness:
  "getLoop (ex_world (ex_loop\<lparr>status := Running\<rparr>)) ''L'' = Some (ex_loop\<lparr>status := Running\<rparr>)
   \<and> \<not> existsSync ((ex_env (\<lambda>i. Closed (Some 0) []))\<lparr>existsSync := (\<lambda>p. False),
          mkdirSync := (\<lambda>p. Some ''EACCES: permission denied'')\<rparr>) WORKSPACE_DIR
   \<and> startLoop ((ex_env (\<lambda>i. Closed (Some 0) []))\<lparr>existsSync := (\<lambda>p. False),
          mkdirSync := (\<lambda>p. Some ''EACCES: permission denied'')\<rparr>) no_callbacks ''L''
          (ex_world (ex_loop\<lparr>status := Running\<rparr>))
       = (Some ''EACCES: permission denied'', ex_world (ex_loop\<lparr>status := Running\<rparr>))
   \<and> existsSync ((ex_env (\<lambda>i. Closed (Some 0) []))\<lparr>existsSync := (\<lambda>p. p = ''./workspaces''),
          sh := (\<lambda>cmd cwd. (Some 128, ''denied''))\<rparr>) WORKSPACE_DIR
   \<and> \<not> existsSync ((ex_env (\<lambda>i. Closed (Some 0) []))\<lparr>existsSync := (\<lambda>p. p = ''./workspaces''),
          sh := (\<lambda>cmd cwd. (Some 128, ''denied''))\<rparr>) ''./workspaces/o-r''
   \<and> startLoop ((ex_env (\<lambda>i. Closed (Some 0) []))\<lparr>existsSync := (\<lambda>p. p = ''./workspaces''),
          sh := (\<lambda>cmd cwd. (Some 128, ''denied''))\<rparr>) no_callbacks ''L''
          (ex_world (ex_loop\<lparr>status := Running\<rparr>))
       = (Some (''Command failed: git clone https://github.com/o/r.git ./workspaces/o-r''
                  @ [CHR 0x0A] @ ''denied''),
          ex_world (ex_loop\<lparr>status := Running\<rparr>))
   \<and> existsSync ((ex_env (\<lambda>i. Closed (Some 0) []))\<lparr>sh := (\<lambda>cmd cwd. (None, ''killed''))\<rparr>)
         ''./workspaces/o-r''
   \<and> ensureWorkspace ((ex_env (\<lambda>i. Closed (Some 0) []))\<lparr>sh := (\<lambda>cmd cwd. (None, ''killed''))\<rparr>)
         ''./workspaces/o-r'' ''o'' ''r'' ''main''
       = Inl (''Command failed: git fetch origin && git reset --hard origin/main''
                @ [CHR 0x0A] @ ''killed'')
   \<and> startLoop ((ex_env (\<lambda>i. Closed (Some 0) []))\<lparr>sh := (\<lambda>cmd cwd. (None, ''killed''))\<rparr>)
          no_callbacks ''L'' (ex_world (ex_loop\<lparr>status := Running\<rparr>))
       = (Some (''Command failed: git fetch origin && git reset --hard origin/main''
                  @ [CHR 0x0A] @ ''killed''),
          ex_world (ex_loop\<lparr>status := Running\<rparr>))"
proof -
  let ?e1 = "(ex_env (\<lambda>i. Closed (Some 0) []))\<lparr>existsSync := (\<lambda>p. False),
          mkdirSync := (\<lambda>p. Some ''EACCES: permission denied'')\<rparr>"
  let ?e2 = "(ex_env (\<lambda>i. Closed (Some 0) []))\<lparr>existsSync := (\<lambda>p. p = ''./workspaces''),
          sh := (\<lambda>cmd cwd. (Some 128, ''denied''))\<rparr>"
  let ?e3 = "(ex_env (\<lambda>i. Closed (Some 0) []))\<lparr>sh := (\<lambda>cmd cwd. (None, ''killed''))\<rparr>"
  let ?l = "ex_loop\<lparr>status := Running\<rparr>"
  let ?rc = "\<lparr>owner = ''o'', name = ''r'', default_branch = ''main'', prompt_path = ''prompt.md''\<rparr>"
  let ?clone = "''git clone https://github.com/o/r.git ./workspaces/o-r''"
  let ?fetch = "''git fetch origin && git reset --hard origin/main''"
  have h1: "getLoop (ex_world ?l) ''L'' = Some ?l" by (simp add: getLoop_def ex_world_def)
  have h2: "getRepo ?e1 (repo_owner ?l) (repo_name ?l) = Some ?rc"
           "getRepo ?e2 (repo_owner ?l) (repo_name ?l) = Some ?rc"
           "getRepo ?e3 (repo_owner ?l) (repo_name ?l) = Some ?rc"
    by (simp_all add: getRepo_def ex_defs)
  have h3: "getFactoryKey ?e1 (started_by ?l) = Some ''fac_key''"
           "getFactoryKey ?e2 (started_by ?l) = Some ''fac_key''"
           "getFactoryKey ?e3 (started_by ?l) = Some ''fac_key''"
    by (simp_all add: getFactoryKey_def ex_defs)
  have h4: "''fac_key'' \<noteq> []" by simp
  have h5: "''./workspaces/o-r'' = path_join ?e1 WORKSPACE_DIR (repo_owner ?l @ ''-'' @ repo_name ?l)"
           "''./workspaces/o-r'' = path_join ?e2 WORKSPACE_DIR (repo_owner ?l @ ''-'' @ repo_name ?l)"
           "''./workspaces/o-r'' = path_join ?e3 WORKSPACE_DIR (repo_owner ?l @ ''-'' @ repo_name ?l)"
    by (simp_all add: ex_defs WORKSPACE_DIR_def)
  have h6: "?clone = ''git clone https://github.com/'' @ repo_owner ?l @ ''/'' @ repo_name ?l
                   @ ''.git '' @ ''./workspaces/o-r''"
    by (simp add: ex_defs)
  have h7: "?fetch = ''git fetch origin && git reset --hard origin/'' @ default_branch ?rc"
    by simp
  have a1: "\<not> existsSync ?e1 WORKSPACE_DIR"
    and a2: "mkdirSync ?e1 WORKSPACE_DIR = Some ''EACCES: permission denied''"
    by (simp_all add: ex_defs)
  have b1: "existsSync ?e2 WORKSPACE_DIR" and b2: "\<not> existsSync ?e2 ''./workspaces/o-r''"
    and b3: "fst (sh ?e2 ?clone None) \<noteq> Some 0" and b4: "snd (sh ?e2 ?clone None) = ''denied''"
    by (simp_all add: ex_defs WORKSPACE_DIR_def)
  have c1: "existsSync ?e3 WORKSPACE_DIR" and c2: "existsSync ?e3 ''./workspaces/o-r''"
    and c3: "fst (sh ?e3 ?fetch (Some ''./workspaces/o-r'')) \<noteq> Some 0"
    and c4: "snd (sh ?e3 ?fetch (Some ''./workspaces/o-r'')) = ''killed''"
    by (simp_all add: ex_defs)
  have c5: "ensureWorkspace ?e3 ''./workspaces/o-r'' (repo_owner ?l) (repo_name ?l)
              (default_branch ?rc) = Inl (''Command failed: '' @ ?fetch @ [CHR 0x0A] @ ''killed'')"
    by (simp add: ensureWorkspace_def execCommand_def ex_defs WORKSPACE_DIR_def)
  have ra: "startLoop ?e1 no_callbacks ''L'' (ex_world ?l)
              = (Some ''EACCES: permission denied'', ex_world ?l)"
    using workspace_failure_rejects [OF h1 h2(1) h3(1) h4 h5(1) h6 h7, of _ no_callbacks
            "''EACCES: permission denied''", THEN conjunct2, THEN conjunct1] a1 a2
    by blast
  have rb: "startLoop ?e2 no_callbacks ''L'' (ex_world ?l)
              = (Some (''Command failed: '' @ ?clone @ [CHR 0x0A] @ ''denied''), ex_world ?l)"
    using workspace_failure_rejects [OF h1 h2(2) h3(2) h4 h5(2) h6 h7, of _ no_callbacks,
            THEN conjunct2, THEN conjunct2, THEN conjunct1] b1 b2 b3
    unfolding b4 by blast
  have rc: "startLoop ?e3 no_callbacks ''L'' (ex_world ?l)
              = (Some (''Command failed: '' @ ?fetch @ [CHR 0x0A] @ ''killed''), ex_world ?l)"
    using workspace_failure_rejects [OF h1 h2(3) h3(3) h4 h5(3) h6 h7, of _ no_callbacks,
            THEN conjunct2, THEN conjunct2, THEN conjunct2] c1 c2 c3
    unfolding c4 by blast
  have rd: "startLoop ?e3 no_callbacks ''L'' (ex_world ?l)
              = (Some (''Command failed: '' @ ?fetch @ [CHR 0x0A] @ ''killed''), ex_world ?l)"
    using workspace_failure_rejects [OF h1 h2(3) h3(3) h4 h5(3) h6 h7, of _ no_callbacks,
            THEN conjunct1] c5
    by blast
  have c5': "ensureWorkspace ?e3 ''./workspaces/o-r'' ''o'' ''r'' ''main''
              = Inl (''Command failed: '' @ ?fetch @ [CHR 0x0A] @ ''killed'')"
    using c5 by (simp add: ex_defs)
  from h1 a1 ra b1 b2 rb c2 c5' rc rd show ?thesis by simp
qed

text \<open>
  C7 as stated fails: with the workspace present and \<^verbatim>\<open>git fetch\<close> exiting with 128, the driver
  rejects with the command's failure and the pending loop is still pending, not error.
\<close>

theorem workspace_failure_counterexample:
  "fst (startLoop ((ex_env (\<lambda>i. Closed (Some 0) []))\<lparr>sh := (\<lambda>cmd cwd. (Some 128, ''fatal''))\<rparr>)
          no_callbacks ''L'' (ex_world ex_loop))
     = Some (''Command failed: git fetch origin && git reset --hard origin/main'' @ [CHR 0x0A]
             @ ''fatal'')
   \<and> map_option status
        (getLoop (snd (startLoop
           ((ex_env (\<lambda>i. Closed (Some 0) []))\<lparr>sh := (\<lambda>cmd cwd. (Some 128, ''fatal''))\<rparr>)
           no_callbacks ''L'' (ex_world ex_loop))) ''L'') = Some Pending"
  by (simp add: setup_defs ex_defs getLoop_def)




end
